theory Spec2Isabelle
  imports Complex_Main "HOL-Library.Word"
begin

unbundle bit_operations_syntax

section \<open>JavaScript numbers and typed arrays\<close>

text \<open>
  A JavaScript number is modelled as a real or one of the IEEE special values. Of the
  rounding of binary64 arithmetic, the underflow of a product is modelled: a product whose
  exact value is at most \<open>2^-1075\<close> in magnitude, half the least positive binary64 number,
  is 0 (round to nearest, ties to even). Otherwise a finite result is the exact real
  result: rounding to 53 (or, in a \<^verbatim>\<open>Float32Array\<close>, 24) bits, overflow to infinity and
  the sign of zero are not modelled, and a division by zero is a division by \<^verbatim>\<open>+0\<close>.
\<close>

datatype number = Num real | NaN | PosInf | NegInf

fun fneg :: "number \<Rightarrow> number" where
  "fneg (Num a) = Num (- a)"
| "fneg NaN = NaN"
| "fneg PosInf = NegInf"
| "fneg NegInf = PosInf"

fun fadd :: "number \<Rightarrow> number \<Rightarrow> number" where
  "fadd (Num a) (Num b) = Num (a + b)"
| "fadd NaN _ = NaN"
| "fadd _ NaN = NaN"
| "fadd PosInf NegInf = NaN"
| "fadd NegInf PosInf = NaN"
| "fadd PosInf _ = PosInf"
| "fadd _ PosInf = PosInf"
| "fadd NegInf _ = NegInf"
| "fadd _ NegInf = NegInf"

definition fsub :: "number \<Rightarrow> number \<Rightarrow> number" where
  "fsub a b = fadd a (fneg b)"

text \<open>The sign of a number that is not NaN: \<open>-1\<close>, \<open>0\<close> or \<open>1\<close>.\<close>

fun fsign :: "number \<Rightarrow> int" where
  "fsign (Num a) = (if a < 0 then - 1 else if a = 0 then 0 else 1)"
| "fsign NaN = 0"
| "fsign PosInf = 1"
| "fsign NegInf = - 1"

definition inf_of_sign :: "int \<Rightarrow> number" where
  "inf_of_sign k = (if k = 0 then NaN else if k < 0 then NegInf else PosInf)"

definition underflow :: "real \<Rightarrow> real" where
  "underflow x = (if \<bar>x\<bar> \<le> 1 / 2 ^ 1075 then 0 else x)"

fun fmul :: "number \<Rightarrow> number \<Rightarrow> number" where
  "fmul (Num a) (Num b) = Num (underflow (a * b))"
| "fmul NaN _ = NaN"
| "fmul _ NaN = NaN"
| "fmul a b = inf_of_sign (fsign a * fsign b)"

fun fdiv :: "number \<Rightarrow> number \<Rightarrow> number" where
  "fdiv (Num a) (Num b) = (if b = 0 then inf_of_sign (fsign (Num a)) else Num (a / b))"
| "fdiv NaN _ = NaN"
| "fdiv _ NaN = NaN"
| "fdiv (Num a) _ = Num 0"
| "fdiv a (Num b) = inf_of_sign (fsign a * (if b < 0 then - 1 else 1))"
| "fdiv _ _ = NaN"

fun fsqrt :: "number \<Rightarrow> number" where
  "fsqrt (Num a) = (if a < 0 then NaN else Num (sqrt a))"
| "fsqrt NaN = NaN"
| "fsqrt PosInf = PosInf"
| "fsqrt NegInf = NaN"

fun flt :: "number \<Rightarrow> number \<Rightarrow> bool" where
  "flt (Num a) (Num b) = (a < b)"
| "flt NaN _ = False"
| "flt _ NaN = False"
| "flt _ NegInf = False"
| "flt PosInf _ = False"
| "flt _ _ = True"

text \<open>
  A typed array is a list. A read outside the array is \<^verbatim>\<open>undefined\<close>, which every use in
  the engine turns into NaN (it is an operand of arithmetic or is stored into a typed
  array); a write outside the array is ignored.
\<close>

definition vget :: "number list \<Rightarrow> int \<Rightarrow> number" where
  "vget xs j = (if 0 \<le> j \<and> j < int (length xs) then xs ! nat j else NaN)"

definition vset :: "number list \<Rightarrow> int \<Rightarrow> number \<Rightarrow> number list" where
  "vset xs j v = (if 0 \<le> j \<and> j < int (length xs) then xs[nat j := v] else xs)"

text \<open>
  The 32-bit integer operators. \<^verbatim>\<open>1 << k\<close> takes the shift count modulo 32 and the
  result as a signed 32-bit integer; \<^verbatim>\<open>(i >> k) & 1\<close> is the bit of \<open>i\<close> at \<open>k mod 32\<close>.
  Loop indices are below \<^verbatim>\<open>1 << qubits\<close>, so they are 32-bit integers already.
\<close>

definition shl1 :: "nat \<Rightarrow> int" where
  "shl1 k = signed_take_bit 31 (push_bit (k mod 32) (1::int))"

definition bit_of :: "int \<Rightarrow> nat \<Rightarrow> int" where
  "bit_of i k = drop_bit (k mod 32) i AND 1"

datatype error = TypeError | RangeError

text \<open>\<^verbatim>\<open>new Float64Array(n)\<close>: zero-filled, a RangeError when \<open>n\<close> is negative.\<close>

definition new_array :: "int \<Rightarrow> error + number list" where
  "new_array n = (if n < 0 then Inl RangeError else Inr (replicate (nat n) (Num 0)))"

text \<open>
  A counting loop \<^verbatim>\<open>for (let i = 0; i < n; i++)\<close> whose body may throw: the loop runs
  over the indices in order and stops at the first exception.
\<close>

fun for_loop :: "nat list \<Rightarrow> (nat \<Rightarrow> 'a \<Rightarrow> error + 'a) \<Rightarrow> 'a \<Rightarrow> error + 'a" where
  "for_loop [] body acc = Inr acc"
| "for_loop (i # js) body acc =
     (case body i acc of Inl e \<Rightarrow> Inl e | Inr acc' \<Rightarrow> for_loop js body acc')"

section \<open>Complex numbers and the gate catalog\<close>

record Complex =
  real_c :: number
  imag_c :: number

definition complex_create :: "number \<Rightarrow> number \<Rightarrow> Complex" where
  "complex_create re im = \<lparr>real_c = re, imag_c = im\<rparr>"

text \<open>The display-only fields of a gate (symbol, description) are left out.\<close>

record QuantumGate =
  name :: string
  matrix :: "Complex list list"
  qubits :: nat

definition createGate :: "string \<Rightarrow> Complex list list \<Rightarrow> nat \<Rightarrow> QuantumGate" where
  "createGate nm m q = \<lparr>name = nm, matrix = m, qubits = q\<rparr>"

definition pauliX :: QuantumGate where
  "pauliX = createGate ''pauliX''
     [[complex_create (Num 0) (Num 0), complex_create (Num 1) (Num 0)],
      [complex_create (Num 1) (Num 0), complex_create (Num 0) (Num 0)]] 1"

definition hadamard :: QuantumGate where
  "hadamard = createGate ''hadamard''
     [[complex_create (Num (1 / sqrt 2)) (Num 0), complex_create (Num (1 / sqrt 2)) (Num 0)],
      [complex_create (Num (1 / sqrt 2)) (Num 0), complex_create (Num (- 1 / sqrt 2)) (Num 0)]] 1"

definition cnot :: QuantumGate where
  "cnot = createGate ''cnot''
     [[complex_create (Num 1) (Num 0), complex_create (Num 0) (Num 0),
       complex_create (Num 0) (Num 0), complex_create (Num 0) (Num 0)],
      [complex_create (Num 0) (Num 0), complex_create (Num 1) (Num 0),
       complex_create (Num 0) (Num 0), complex_create (Num 0) (Num 0)],
      [complex_create (Num 0) (Num 0), complex_create (Num 0) (Num 0),
       complex_create (Num 0) (Num 0), complex_create (Num 1) (Num 0)],
      [complex_create (Num 0) (Num 0), complex_create (Num 0) (Num 0),
       complex_create (Num 1) (Num 0), complex_create (Num 0) (Num 0)]] 2"

text \<open>
  The Toffoli matrix is filled by a loop over a zero 8 x 8 matrix: row 6 gets its one in
  column 7, row 7 in column 6, every other row on the diagonal.
\<close>

definition toffoli :: QuantumGate where
  "toffoli = createGate ''toffoli''
     (map (\<lambda>i. map (\<lambda>j. complex_create
         (Num (if i = 6 then (if j = 7 then 1 else 0)
               else if i = 7 then (if j = 6 then 1 else 0)
               else if j = i then 1 else 0)) (Num 0)) [0..<8]) [0..<(8::nat)]) 3"

text \<open>
  \<^verbatim>\<open>matrix[r][c]\<close> followed by a field access: a missing row or a missing entry throws
  a TypeError.
\<close>

definition mat_get :: "Complex list list \<Rightarrow> nat \<Rightarrow> nat \<Rightarrow> error + Complex" where
  "mat_get m r c =
     (if r < length m \<and> c < length (m ! r) then Inr (m ! r ! c) else Inl TypeError)"

section \<open>States and operations\<close>

text \<open>
  A state holds the qubit count, the interleaved amplitude buffer
  \<^verbatim>\<open>[real_0, imag_0, real_1, imag_1, ...]\<close> and the optional cached probability array.
\<close>

record QuantumState =
  qubits :: nat
  vector :: "number list"
  probabilities :: "number list option"

text \<open>
  An operation: the gate, the targets and the controls (an absent \<^verbatim>\<open>controls\<close> is the
  empty list, as the destructuring default makes it). The unused \<^verbatim>\<open>params\<close> are left out.
\<close>

record CircuitOperation =
  gate :: QuantumGate
  targets :: "nat list"
  controls :: "nat list"

section \<open>The state vector engine\<close>

definition createState :: "nat \<Rightarrow> error + QuantumState" where
  "createState n =
     (let dim = shl1 n in
      case new_array (dim * 2) of
        Inl e \<Rightarrow> Inl e
      | Inr v \<Rightarrow> Inr \<lparr>qubits = n, vector = vset v 0 (Num 1), probabilities = None\<rparr>)"

text \<open>One iteration of the loop of \<^verbatim>\<open>applySingleQubitGate\<close>, at basis index \<open>i\<close>.\<close>

definition single_qubit_step ::
  "number list \<Rightarrow> Complex list list \<Rightarrow> nat \<Rightarrow> nat \<Rightarrow> number list \<Rightarrow> error + number list" where
  "single_qubit_step v m targetQubit i result =
     (let targetBit = bit_of (int i) targetQubit;
          flipped = int i XOR shl1 targetQubit;
          i0RealIdx = int i * 2;
          i0ImagIdx = i0RealIdx + 1;
          i1RealIdx = flipped * 2;
          i1ImagIdx = i1RealIdx + 1;
          curReal = vget v i0RealIdx;
          curImag = vget v i0ImagIdx;
          flipReal = vget v i1RealIdx;
          flipImag = vget v i1ImagIdx
      in if targetBit = 0 then
           (case mat_get m 0 0 of Inl e \<Rightarrow> Inl e | Inr m00 \<Rightarrow>
            (case mat_get m 0 1 of Inl e \<Rightarrow> Inl e | Inr m01 \<Rightarrow>
              let term1Real = fsub (fmul (real_c m00) curReal) (fmul (imag_c m00) curImag);
                  term1Imag = fadd (fmul (real_c m00) curImag) (fmul (imag_c m00) curReal);
                  term2Real = fsub (fmul (real_c m01) flipReal) (fmul (imag_c m01) flipImag);
                  term2Imag = fadd (fmul (real_c m01) flipImag) (fmul (imag_c m01) flipReal)
              in Inr (vset (vset result i0RealIdx (fadd term1Real term2Real))
                        i0ImagIdx (fadd term1Imag term2Imag))))
         else
           (case mat_get m 1 0 of Inl e \<Rightarrow> Inl e | Inr m10 \<Rightarrow>
            (case mat_get m 1 1 of Inl e \<Rightarrow> Inl e | Inr m11 \<Rightarrow>
              let term1Real = fsub (fmul (real_c m10) flipReal) (fmul (imag_c m10) flipImag);
                  term1Imag = fadd (fmul (real_c m10) flipImag) (fmul (imag_c m10) flipReal);
                  term2Real = fsub (fmul (real_c m11) curReal) (fmul (imag_c m11) curImag);
                  term2Imag = fadd (fmul (real_c m11) curImag) (fmul (imag_c m11) curReal)
              in Inr (vset (vset result i0RealIdx (fadd term1Real term2Real))
                        i0ImagIdx (fadd term1Imag term2Imag)))))"

definition applySingleQubitGate ::
  "QuantumState \<Rightarrow> Complex list list \<Rightarrow> nat \<Rightarrow> error + QuantumState" where
  "applySingleQubitGate state m targetQubit =
     (let dim = shl1 (qubits state);
          result = replicate (length (vector state)) (Num 0)
      in case for_loop [0..<nat dim] (single_qubit_step (vector state) m targetQubit) result of
           Inl e \<Rightarrow> Inl e
         | Inr r \<Rightarrow> Inr \<lparr>qubits = qubits state, vector = r, probabilities = None\<rparr>)"

text \<open>
  One iteration of the loop of \<^verbatim>\<open>applyCNOT\<close>: the swap is done in place in \<open>result\<close>,
  which starts as a copy of the state's buffer.
\<close>

definition cnot_step :: "nat \<Rightarrow> nat \<Rightarrow> nat \<Rightarrow> number list \<Rightarrow> number list" where
  "cnot_step controlQubit targetQubit i result =
     (let controlBit = bit_of (int i) controlQubit
      in if controlBit = 1 then
           let flipped = int i XOR shl1 targetQubit;
               iRealIdx = int i * 2;
               iImagIdx = iRealIdx + 1;
               flippedRealIdx = flipped * 2;
               flippedImagIdx = flippedRealIdx + 1;
               tempReal = vget result iRealIdx;
               tempImag = vget result iImagIdx;
               result1 = vset result iRealIdx (vget result flippedRealIdx);
               result2 = vset result1 iImagIdx (vget result1 flippedImagIdx);
               result3 = vset result2 flippedRealIdx tempReal
           in vset result3 flippedImagIdx tempImag
         else result)"

definition applyCNOT :: "QuantumState \<Rightarrow> nat \<Rightarrow> nat \<Rightarrow> QuantumState" where
  "applyCNOT state controlQubit targetQubit =
     (let dim = shl1 (qubits state);
          result = vector state
      in \<lparr>qubits = qubits state,
          vector = fold (cnot_step controlQubit targetQubit) [0..<nat dim] result,
          probabilities = None\<rparr>)"

text \<open>
  The inner loop of \<^verbatim>\<open>applyTwoQubitGate\<close> over the output patterns \<open>j\<close>, at basis index
  \<open>i\<close>, and the outer loop over the basis indices.
\<close>

definition two_qubit_inner ::
  "number list \<Rightarrow> Complex list list \<Rightarrow> nat \<Rightarrow> nat \<Rightarrow> nat \<Rightarrow> nat \<Rightarrow> number list
     \<Rightarrow> error + number list" where
  "two_qubit_inner v m qubit1 qubit2 i j result =
     (let bit1 = bit_of (int i) qubit1;
          bit2 = bit_of (int i) qubit2;
          matrixIdx = push_bit 1 bit1 OR bit2;
          newBit1 = bit_of (int j) 1;
          newBit2 = int j AND 1;
          newState0 = int i;
          newState1 = (if bit1 \<noteq> newBit1 then newState0 XOR shl1 qubit1 else newState0);
          newState = (if bit2 \<noteq> newBit2 then newState1 XOR shl1 qubit2 else newState1)
      in case mat_get m j (nat matrixIdx) of
           Inl e \<Rightarrow> Inl e
         | Inr matrixElement \<Rightarrow>
             let inRealIdx = int i * 2;
                 inImagIdx = inRealIdx + 1;
                 inReal = vget v inRealIdx;
                 inImag = vget v inImagIdx;
                 termReal = fsub (fmul (real_c matrixElement) inReal)
                                 (fmul (imag_c matrixElement) inImag);
                 termImag = fadd (fmul (real_c matrixElement) inImag)
                                 (fmul (imag_c matrixElement) inReal);
                 outRealIdx = newState * 2;
                 outImagIdx = outRealIdx + 1;
                 result1 = vset result outRealIdx (fadd (vget result outRealIdx) termReal)
             in Inr (vset result1 outImagIdx (fadd (vget result1 outImagIdx) termImag)))"

definition applyTwoQubitGate ::
  "QuantumState \<Rightarrow> Complex list list \<Rightarrow> nat \<Rightarrow> nat \<Rightarrow> error + QuantumState" where
  "applyTwoQubitGate state m qubit1 qubit2 =
     (let dim = shl1 (qubits state) in
      case new_array (dim * 2) of
        Inl e \<Rightarrow> Inl e
      | Inr result \<Rightarrow>
          (case for_loop [0..<nat dim]
                  (\<lambda>i. for_loop [0..<4] (two_qubit_inner (vector state) m qubit1 qubit2 i))
                  result of
             Inl e \<Rightarrow> Inl e
           | Inr r \<Rightarrow> Inr \<lparr>qubits = qubits state, vector = r, probabilities = None\<rparr>))"

text \<open>The placeholder: it warns on the console and returns the state object it was given.\<close>

definition applyGeneralGate :: "QuantumState \<Rightarrow> CircuitOperation \<Rightarrow> QuantumState" where
  "applyGeneralGate state operation = state"

text \<open>
  \<^verbatim>\<open>targets[0]\<close> of an empty list is \<^verbatim>\<open>undefined\<close>, which both shifts take as 0.
\<close>

definition index0 :: "nat list \<Rightarrow> nat" where
  "index0 xs = (case xs of [] \<Rightarrow> 0 | x # _ \<Rightarrow> x)"

definition applyGate :: "QuantumState \<Rightarrow> CircuitOperation \<Rightarrow> error + QuantumState" where
  "applyGate state operation =
     (let g = gate operation; ts = targets operation; cs = controls operation
      in if length ts \<noteq> QuantumGate.qubits g \<and> QuantumGate.qubits g = 1 \<and> length cs = 0 then
           applySingleQubitGate state (matrix g) (index0 ts)
         else if QuantumGate.qubits g = 2 \<and> length ts = 2 \<and> length cs = 0 then
           applyTwoQubitGate state (matrix g) (ts ! 0) (ts ! 1)
         else if name g = ''cnot'' \<and> length ts = 1 \<and> length cs = 1 then
           Inr (applyCNOT state (cs ! 0) (ts ! 0))
         else
           Inr (applyGeneralGate state operation))"

section \<open>Measurement\<close>

definition calculateProbabilities :: "QuantumState \<Rightarrow> error + number list" where
  "calculateProbabilities state =
     (let dim = shl1 (qubits state) in
      case new_array dim of
        Inl e \<Rightarrow> Inl e
      | Inr probs \<Rightarrow>
          Inr (fold (\<lambda>i ps.
                 let realIdx = int i * 2;
                     imagIdx = realIdx + 1;
                     re = vget (vector state) realIdx;
                     im = vget (vector state) imagIdx
                 in vset ps (int i) (fadd (fmul re re) (fmul im im)))
               [0..<nat dim] probs))"

text \<open>The first loop of \<^verbatim>\<open>measure\<close>: the probability of reading 1 on the qubit.\<close>

definition prob_one :: "number list \<Rightarrow> int \<Rightarrow> nat \<Rightarrow> number" where
  "prob_one probs d qubit =
     fold (\<lambda>i prob1. if bit_of (int i) qubit = 1 then fadd prob1 (vget probs (int i)) else prob1)
       [0..<nat d] (Num 0)"

text \<open>
  The second loop: the amplitudes whose qubit bit equals the outcome are copied into the
  new buffer, and their squared magnitudes are added up in \<^verbatim>\<open>normalizationFactor\<close>.
\<close>

definition collapse_step ::
  "number list \<Rightarrow> nat \<Rightarrow> int \<Rightarrow> nat \<Rightarrow> number list \<times> number \<Rightarrow> number list \<times> number" where
  "collapse_step v qubit outcome i acc =
     (let newVector = fst acc; normalizationFactor = snd acc;
          bitValue = bit_of (int i) qubit
      in if bitValue = outcome then
           let realIdx = int i * 2;
               imagIdx = realIdx + 1;
               re = vget v realIdx;
               im = vget v imagIdx
           in (vset (vset newVector realIdx re) imagIdx im,
               fadd normalizationFactor (fadd (fmul re re) (fmul im im)))
         else acc)"

definition collapse :: "number list \<Rightarrow> int \<Rightarrow> nat \<Rightarrow> int \<Rightarrow> number list \<Rightarrow> number list \<times> number" where
  "collapse v d qubit outcome newVector =
     fold (collapse_step v qubit outcome) [0..<nat d] (newVector, Num 0)"

text \<open>
  \<^verbatim>\<open>measure(state, qubit)\<close> (\<open>measure\<close> being a constant of HOL, the function is
  \<open>measure_qubit\<close> here), with the value \<open>random\<close> that \<^verbatim>\<open>Math.random()\<close> returns as
  an argument. The probabilities are the cached ones when the state has them, the computed
  ones otherwise (the code also stores the computed array in the argument object, which no
  caller of the engine reads again). The last loop divides every entry of the new buffer
  by the square root of the retained mass. No statement of \<^verbatim>\<open>measure\<close> throws; the only
  exceptions are the RangeErrors of the two allocations. The probabilities are kept in a
  \<^verbatim>\<open>Float32Array\<close>, whose rounding is not modelled: it can change which outcome a draw
  selects, not what is returned for an outcome.
\<close>

definition measure_qubit :: "QuantumState \<Rightarrow> nat \<Rightarrow> real \<Rightarrow> error + QuantumState \<times> bool" where
  "measure_qubit state qubit random =
     (case (case probabilities state of
              None \<Rightarrow> calculateProbabilities state
            | Some ps \<Rightarrow> Inr ps) of
        Inl e \<Rightarrow> Inl e
      | Inr probs \<Rightarrow>
          let dim = shl1 (qubits state);
              prob1 = prob_one probs dim qubit;
              outcome = (if flt (Num random) prob1 then 1 else 0);
              measured = (outcome = (1::int))
          in case new_array (dim * 2) of
               Inl e \<Rightarrow> Inl e
             | Inr zeros \<Rightarrow>
                 let c = collapse (vector state) dim qubit outcome zeros;
                     normalizationFactor = fsqrt (snd c)
                 in Inr (\<lparr>qubits = qubits state,
                          vector = map (\<lambda>x. fdiv x normalizationFactor) (fst c),
                          probabilities = None\<rparr>, measured))"

text \<open>
  The retained probability mass of an outcome: the value of \<^verbatim>\<open>normalizationFactor\<close>
  before the square root: a sum of squares, each square underflowing to 0 as a product
  does.
\<close>

definition retained_mass :: "QuantumState \<Rightarrow> nat \<Rightarrow> bool \<Rightarrow> number" where
  "retained_mass state qubit measured =
     snd (collapse (vector state) (shl1 (qubits state)) qubit (if measured then 1 else 0)
            (replicate (nat (shl1 (qubits state) * 2)) (Num 0)))"

text \<open>
  The buffer \<^verbatim>\<open>measure\<close> returns for an outcome: the collapsed buffer, every entry divided
  by the square root of the retained mass.
\<close>

definition collapsed_vector :: "QuantumState \<Rightarrow> nat \<Rightarrow> bool \<Rightarrow> number list" where
  "collapsed_vector state qubit measured =
     (let c = collapse (vector state) (shl1 (qubits state)) qubit (if measured then 1 else 0)
                (replicate (nat (shl1 (qubits state) * 2)) (Num 0))
      in map (\<lambda>x. fdiv x (fsqrt (snd c))) (fst c))"

text \<open>A number that is NaN or an infinity.\<close>

definition not_finite :: "number \<Rightarrow> bool" where
  "not_finite x = (x = NaN \<or> x = PosInf \<or> x = NegInf)"

section \<open>Multi-shot sampling\<close>

record MeasurementResult =
  state :: string
  probability :: number
  frequency :: "number option"

type_synonym results = "(string \<times> MeasurementResult) list"

text \<open>The cumulative distribution: \<^verbatim>\<open>cumulativeProbs[i] = cumulativeProbs[i - 1] + probabilities[i]\<close>.\<close>

definition cumulative :: "number list \<Rightarrow> number list \<Rightarrow> int \<Rightarrow> number list" where
  "cumulative probs zeros d =
     fold (\<lambda>i cum. vset cum (int i) (fadd (vget cum (int i - 1)) (vget probs (int i))))
       [1..<nat d] (vset zeros 0 (vget probs 0))"

text \<open>
  The binary search of one shot: \<^verbatim>\<open>while (low <= high)\<close> with
  \<^verbatim>\<open>mid = Math.floor((low + high) / 2)\<close>.
\<close>

function bsearch :: "number \<Rightarrow> number list \<Rightarrow> int \<Rightarrow> int \<Rightarrow> int \<Rightarrow> int" where
  "bsearch random cum low high outcome =
     (if low \<le> high then
        let mid = (low + high) div 2
        in if flt random (vget cum mid) then bsearch random cum low (mid - 1) mid
           else bsearch random cum (mid + 1) high outcome
      else outcome)"
  by pat_completeness auto
termination
  by (relation "measure (\<lambda>(random, cum, low, high, outcome). nat (high - low + 1))") auto

declare bsearch.simps [simp del]

text \<open>\<^verbatim>\<open>outcome.toString(2).padStart(qubits, '0')\<close> for an outcome that is not negative.\<close>

fun to_binary :: "nat \<Rightarrow> string" where
  "to_binary n =
     (if n < 2 then [if n = 0 then CHR ''0'' else CHR ''1'']
      else to_binary (n div 2) @ [if n mod 2 = 0 then CHR ''0'' else CHR ''1''])"

definition padStart :: "string \<Rightarrow> nat \<Rightarrow> char \<Rightarrow> string" where
  "padStart s n c = replicate (n - length s) c @ s"

definition bit_string :: "int \<Rightarrow> nat \<Rightarrow> string" where
  "bit_string outcome n = padStart (to_binary (nat outcome)) n CHR ''0''"

text \<open>\<^verbatim>\<open>frequency || 0\<close>: an absent, zero or NaN frequency counts as 0.\<close>

definition or_zero :: "number option \<Rightarrow> number" where
  "or_zero f = (case f of None \<Rightarrow> Num 0 | Some x \<Rightarrow> if x = NaN \<or> x = Num 0 then Num 0 else x)"

text \<open>
  The update of \<^verbatim>\<open>results\<close> at the end of one shot. The object is an association list
  in insertion order; an entry that exists has its frequency incremented, a new one starts
  at 1 with the probability of the outcome.
\<close>

definition record_shot :: "number list \<Rightarrow> nat \<Rightarrow> int \<Rightarrow> results \<Rightarrow> results" where
  "record_shot probs n outcome res =
     (let bitString = bit_string outcome n
      in case map_of res bitString of
           Some _ \<Rightarrow>
             map (\<lambda>(k, r). if k = bitString
                    then (k, r\<lparr>frequency := Some (fadd (or_zero (frequency r)) (Num 1))\<rparr>)
                    else (k, r)) res
         | None \<Rightarrow>
             res @ [(bitString, \<lparr>state = bitString, probability = vget probs outcome,
                                frequency = Some (Num 1)\<rparr>)])"

text \<open>
  \<^verbatim>\<open>sampleMeasurements(state, shots)\<close>; \<open>rnd k\<close> is the value \<^verbatim>\<open>Math.random()\<close> returns
  in shot \<open>k\<close>. The last loop divides every frequency by \<open>shots\<close>.
\<close>

definition sampleMeasurements :: "QuantumState \<Rightarrow> nat \<Rightarrow> (nat \<Rightarrow> real) \<Rightarrow> error + results" where
  "sampleMeasurements st shots rnd =
     (case calculateProbabilities st of
        Inl e \<Rightarrow> Inl e
      | Inr probs \<Rightarrow>
          let dim = shl1 (qubits st) in
          case new_array dim of
            Inl e \<Rightarrow> Inl e
          | Inr zeros \<Rightarrow>
              let cumulativeProbs = cumulative probs zeros dim;
                  res = fold (\<lambda>shot res.
                          let random = rnd shot;
                              outcome = bsearch (Num random) cumulativeProbs 0 (dim - 1) 0
                          in record_shot probs (qubits st) outcome res)
                        [0..<shots] []
              in Inr (map (\<lambda>(k, r). (k, r\<lparr>frequency :=
                            Some (fdiv (case frequency r of None \<Rightarrow> NaN | Some f \<Rightarrow> f)
                                       (Num (real shots)))\<rparr>)) res))"

text \<open>The sum of the reported frequencies, in the order of the entries.\<close>

definition frequency_sum :: "results \<Rightarrow> number" where
  "frequency_sum res =
     foldr (\<lambda>(k, r) acc. fadd (case frequency r of None \<Rightarrow> NaN | Some f \<Rightarrow> f) acc) res (Num 0)"

section \<open>The circuit simulator\<close>

record Measurement =
  qubit :: nat
  classical :: nat

record QuantumCircuit =
  id_c :: string
  numQubits :: nat
  operations :: "CircuitOperation list"
  measurements :: "Measurement list"

text \<open>The result record, without the elapsed wall-clock time.\<close>

record SimulationResult =
  circuitId :: string
  finalState :: QuantumState
  measurements :: results

text \<open>
  The array \<^verbatim>\<open>classical\<close> of the single-shot branch: an entry is a bit or a hole. An
  assignment past the end extends the array, leaving holes; \<^verbatim>\<open>join('')\<close> prints a hole
  as the empty string.
\<close>

definition array_set :: "nat option list \<Rightarrow> nat \<Rightarrow> nat \<Rightarrow> nat option list" where
  "array_set xs i v =
     (if i < length xs then xs[i := Some v]
      else xs @ replicate (i - length xs) None @ [Some v])"

definition join :: "nat option list \<Rightarrow> string" where
  "join xs = concat (map (\<lambda>x. case x of None \<Rightarrow> [] | Some b \<Rightarrow> if b = 0 then ''0'' else ''1'') xs)"

text \<open>The loop over \<^verbatim>\<open>circuit.operations\<close>.\<close>

fun apply_operations :: "QuantumState \<Rightarrow> CircuitOperation list \<Rightarrow> error + QuantumState" where
  "apply_operations st [] = Inr st"
| "apply_operations st (operation # ops) =
     (case applyGate st operation of
        Inl e \<Rightarrow> Inl e
      | Inr st' \<Rightarrow> apply_operations st' ops)"

text \<open>
  The loop of the single-shot branch over \<^verbatim>\<open>circuit.measurements\<close>; \<open>rnd k\<close> is the value
  of the \<open>k\<close>-th call of \<^verbatim>\<open>Math.random()\<close>.
\<close>

fun single_shot ::
  "(nat \<Rightarrow> real) \<Rightarrow> nat \<Rightarrow> Measurement list \<Rightarrow> QuantumState \<Rightarrow> nat option list
     \<Rightarrow> error + QuantumState \<times> nat option list" where
  "single_shot rnd k [] st cl = Inr (st, cl)"
| "single_shot rnd k (m # ms) st cl =
     (case measure_qubit st (qubit m) (rnd k) of
        Inl e \<Rightarrow> Inl e
      | Inr (newState, result) \<Rightarrow>
          single_shot rnd (Suc k) ms newState (array_set cl (classical m) (if result then 1 else 0)))"

definition runCircuit :: "QuantumCircuit \<Rightarrow> nat \<Rightarrow> (nat \<Rightarrow> real) \<Rightarrow> error + SimulationResult" where
  "runCircuit circuit shots rnd =
     (case createState (numQubits circuit) of
        Inl e \<Rightarrow> Inl e
      | Inr st0 \<Rightarrow>
          (case apply_operations st0 (operations circuit) of
             Inl e \<Rightarrow> Inl e
           | Inr st \<Rightarrow>
               if shots = 0 then
                 Inr \<lparr>circuitId = id_c circuit, finalState = st, measurements = []\<rparr>
               else if shots = 1 then
                 (case single_shot rnd 0 (QuantumCircuit.measurements circuit) st
                         (replicate (length (QuantumCircuit.measurements circuit)) (Some 0)) of
                    Inl e \<Rightarrow> Inl e
                  | Inr (st', cl) \<Rightarrow>
                      let bitString = join cl
                      in Inr \<lparr>circuitId = id_c circuit, finalState = st',
                              measurements = [(bitString,
                                \<lparr>state = bitString, probability = Num 1,
                                 frequency = Some (Num 1)\<rparr>)]\<rparr>)
               else
                 (case sampleMeasurements st shots rnd of
                    Inl e \<Rightarrow> Inl e
                  | Inr ms \<Rightarrow>
                      Inr \<lparr>circuitId = id_c circuit, finalState = st, measurements = ms\<rparr>)))"

text \<open>
  The single-shot mode in the words of the specification: one measurement for every named
  qubit, in the order given, each collapse feeding the state used by the next; the
  outcomes are then assembled into the classical bits.
\<close>

fun measure_each ::
  "(nat \<Rightarrow> real) \<Rightarrow> nat \<Rightarrow> nat list \<Rightarrow> QuantumState \<Rightarrow> error + QuantumState \<times> bool list" where
  "measure_each rnd k [] st = Inr (st, [])"
| "measure_each rnd k (q # qs) st =
     (case measure_qubit st q (rnd k) of
        Inl e \<Rightarrow> Inl e
      | Inr (st', outcome) \<Rightarrow>
          (case measure_each rnd (Suc k) qs st' of
             Inl e \<Rightarrow> Inl e
           | Inr (st'', outcomes) \<Rightarrow> Inr (st'', outcome # outcomes)))"

definition assemble :: "nat list \<Rightarrow> bool list \<Rightarrow> nat option list \<Rightarrow> nat option list" where
  "assemble idxs outcomes cl =
     fold (\<lambda>(i, b) cl. array_set cl i (if b then 1 else 0)) (zip idxs outcomes) cl"

section \<open>The engine on a store\<close>

text \<open>
  For the claims about aliasing, the same code on an explicit store: a buffer lives at an
  address, a state object holds the addresses of its buffers, \<^verbatim>\<open>new Float64Array\<close>
  allocates the next free address, and every read and write of a loop goes through the
  store. An exception leaves the store as it is at the throw.
\<close>

type_synonym addr = nat

record heap =
  buffers :: "addr \<Rightarrow> number list"
  next_free :: addr

record StateRef =
  ref_qubits :: nat
  ref_vector :: addr
  ref_probabilities :: "addr option"

definition alloc :: "heap \<Rightarrow> number list \<Rightarrow> addr \<times> heap" where
  "alloc h xs = (next_free h, \<lparr>buffers = (buffers h)(next_free h := xs), next_free = Suc (next_free h)\<rparr>)"

definition write_buffer :: "heap \<Rightarrow> addr \<Rightarrow> number list \<Rightarrow> heap" where
  "write_buffer h a xs = h\<lparr>buffers := (buffers h)(a := xs)\<rparr>"

text \<open>The state a reference denotes in a store.\<close>

definition load :: "heap \<Rightarrow> StateRef \<Rightarrow> QuantumState" where
  "load h r = \<lparr>qubits = ref_qubits r, vector = buffers h (ref_vector r),
               probabilities = map_option (buffers h) (ref_probabilities r)\<rparr>"

fun store_loop ::
  "nat list \<Rightarrow> (nat \<Rightarrow> heap \<Rightarrow> heap \<times> error option) \<Rightarrow> heap \<Rightarrow> heap \<times> error option" where
  "store_loop [] body h = (h, None)"
| "store_loop (i # js) body h =
     (case body i h of
        (h', Some e) \<Rightarrow> (h', Some e)
      | (h', None) \<Rightarrow> store_loop js body h')"

definition applySingleQubitGate_store ::
  "heap \<Rightarrow> StateRef \<Rightarrow> Complex list list \<Rightarrow> nat \<Rightarrow> heap \<times> (error + StateRef)" where
  "applySingleQubitGate_store h st m targetQubit =
     (let dim = shl1 (ref_qubits st);
          (result, h1) = alloc h (replicate (length (buffers h (ref_vector st))) (Num 0))
      in case store_loop [0..<nat dim]
                (\<lambda>i h. case single_qubit_step (buffers h (ref_vector st)) m targetQubit i
                                (buffers h result) of
                          Inl e \<Rightarrow> (h, Some e)
                        | Inr r \<Rightarrow> (write_buffer h result r, None)) h1 of
           (h2, Some e) \<Rightarrow> (h2, Inl e)
         | (h2, None) \<Rightarrow>
             (h2, Inr \<lparr>ref_qubits = ref_qubits st, ref_vector = result,
                       ref_probabilities = None\<rparr>))"

text \<open>\<^verbatim>\<open>new Float64Array(state.vector)\<close> copies the buffer; the swaps are done in the copy.\<close>

definition applyCNOT_store :: "heap \<Rightarrow> StateRef \<Rightarrow> nat \<Rightarrow> nat \<Rightarrow> heap \<times> (error + StateRef)" where
  "applyCNOT_store h st controlQubit targetQubit =
     (let dim = shl1 (ref_qubits st);
          (result, h1) = alloc h (buffers h (ref_vector st));
          h2 = fold (\<lambda>i h. write_buffer h result
                       (cnot_step controlQubit targetQubit i (buffers h result)))
                 [0..<nat dim] h1
      in (h2, Inr \<lparr>ref_qubits = ref_qubits st, ref_vector = result,
                   ref_probabilities = None\<rparr>))"

definition applyTwoQubitGate_store ::
  "heap \<Rightarrow> StateRef \<Rightarrow> Complex list list \<Rightarrow> nat \<Rightarrow> nat \<Rightarrow> heap \<times> (error + StateRef)" where
  "applyTwoQubitGate_store h st m qubit1 qubit2 =
     (let dim = shl1 (ref_qubits st) in
      case new_array (dim * 2) of
        Inl e \<Rightarrow> (h, Inl e)
      | Inr zeros \<Rightarrow>
          let (result, h1) = alloc h zeros
          in case store_loop [0..<nat dim]
                    (\<lambda>i. store_loop [0..<4]
                       (\<lambda>j h. case two_qubit_inner (buffers h (ref_vector st)) m qubit1 qubit2 i j
                                       (buffers h result) of
                                 Inl e \<Rightarrow> (h, Some e)
                               | Inr r \<Rightarrow> (write_buffer h result r, None))) h1 of
               (h2, Some e) \<Rightarrow> (h2, Inl e)
             | (h2, None) \<Rightarrow>
                 (h2, Inr \<lparr>ref_qubits = ref_qubits st, ref_vector = result,
                           ref_probabilities = None\<rparr>))"

definition applyGeneralGate_store ::
  "heap \<Rightarrow> StateRef \<Rightarrow> CircuitOperation \<Rightarrow> heap \<times> (error + StateRef)" where
  "applyGeneralGate_store h st operation = (h, Inr st)"

definition applyGate_store ::
  "heap \<Rightarrow> StateRef \<Rightarrow> CircuitOperation \<Rightarrow> heap \<times> (error + StateRef)" where
  "applyGate_store h st operation =
     (let g = gate operation; ts = targets operation; cs = controls operation
      in if length ts \<noteq> QuantumGate.qubits g \<and> QuantumGate.qubits g = 1 \<and> length cs = 0 then
           applySingleQubitGate_store h st (matrix g) (index0 ts)
         else if QuantumGate.qubits g = 2 \<and> length ts = 2 \<and> length cs = 0 then
           applyTwoQubitGate_store h st (matrix g) (ts ! 0) (ts ! 1)
         else if name g = ''cnot'' \<and> length ts = 1 \<and> length cs = 1 then
           applyCNOT_store h st (cs ! 0) (ts ! 0)
         else
           applyGeneralGate_store h st operation)"

text \<open>
  The buffers allocated in \<open>h\<close> are the addresses below \<open>next_free h\<close>; \<open>frame h h'\<close>
  says that each of them holds in \<open>h'\<close> what it holds in \<open>h\<close>.
\<close>

definition frame :: "heap \<Rightarrow> heap \<Rightarrow> bool" where
  "frame h h' = list_all (\<lambda>a. buffers h' a = buffers h a) [0..<next_free h]"

section \<open>Auxiliary notions of the proofs\<close>

text \<open>
  The occurrence count an entry of \<^verbatim>\<open>results\<close> holds during the sampling loop, and the
  two updates of the loop and of the final division, named.
\<close>

definition count_of :: "MeasurementResult \<Rightarrow> real" where
  "count_of r = (case frequency r of Some (Num x) \<Rightarrow> x | _ \<Rightarrow> 0)"

definition counted :: "results \<Rightarrow> bool" where
  "counted res = (\<forall>e \<in> set res. \<exists>c::nat. 1 \<le> c \<and> frequency (snd e) = Some (Num (real c)))"

definition increment :: "MeasurementResult \<Rightarrow> MeasurementResult" where
  "increment r = r\<lparr>frequency := Some (fadd (or_zero (frequency r)) (Num 1))\<rparr>"

definition increment_key :: "string \<Rightarrow> string \<times> MeasurementResult \<Rightarrow> string \<times> MeasurementResult" where
  "increment_key key = (\<lambda>(k, r). if k = key then (k, increment r) else (k, r))"

definition divide_by :: "nat \<Rightarrow> string \<times> MeasurementResult \<Rightarrow> string \<times> MeasurementResult" where
  "divide_by shots = (\<lambda>(k, r). (k, r\<lparr>frequency :=
       Some (fdiv (case frequency r of None \<Rightarrow> NaN | Some f \<Rightarrow> f) (Num (real shots)))\<rparr>))"

text \<open>\<open>keeps n h h'\<close>: the addresses below \<open>n\<close> hold in \<open>h'\<close> what they hold in \<open>h\<close>.\<close>

definition keeps :: "addr \<Rightarrow> heap \<Rightarrow> heap \<Rightarrow> bool" where
  "keeps n h h' = (\<forall>a < n. buffers h' a = buffers h a)"

text \<open>
  A loop body on the store simulates a step on values: started where the source buffer
  holds \<open>v\<close>, it leaves the source buffer alone and does to the result buffer what the
  step does to its accumulator.
\<close>

definition simulates ::
  "addr \<Rightarrow> addr \<Rightarrow> number list \<Rightarrow> (nat \<Rightarrow> heap \<Rightarrow> heap \<times> error option)
     \<Rightarrow> (nat \<Rightarrow> number list \<Rightarrow> error + number list) \<Rightarrow> bool" where
  "simulates src r v body step =
     (\<forall>i h. buffers h src = v \<longrightarrow>
        (case body i h of
           (h', None) \<Rightarrow> step i (buffers h r) = Inr (buffers h' r) \<and> buffers h' src = v
         | (h', Some e) \<Rightarrow> step i (buffers h r) = Inl e))"

section \<open>The dispatch\<close>

text \<open>
  The operations that reach the placeholder: those that pass none of the three tests of
  the dispatch in \<^verbatim>\<open>applyGate\<close>.
\<close>

definition general_path :: "CircuitOperation \<Rightarrow> bool" where
  "general_path operation =
     (let g = gate operation; ts = targets operation; cs = controls operation
      in \<not> (length ts \<noteq> QuantumGate.qubits g \<and> QuantumGate.qubits g = 1 \<and> length cs = 0)
         \<and> \<not> (QuantumGate.qubits g = 2 \<and> length ts = 2 \<and> length cs = 0)
         \<and> \<not> (name g = ''cnot'' \<and> length ts = 1 \<and> length cs = 1))"

section \<open>Evaluation\<close>

text \<open>The underflow threshold \<open>2^1075\<close> written out, for evaluation.\<close>

lemma underflow_code [code]:
  "underflow x =
     (if \<bar>x\<bar> \<le> 1 / 404804506614621236704990693437834614099113299528284236713802716054860679135990693783920767402874248990374155728633623822779617474771586953734026799881477019843034848553132722728933815484186432682479535356945490137124014966849385397236206711298319112681620113024717539104666829230461005064372655017292012526615415482186989568
      then 0 else x)"
  by (simp add: underflow_def)

section \<open>Theorems on the dispatch of \<^verbatim>\<open>applyGate\<close>\<close>

lemma shl1_small: "k < 31 \<Longrightarrow> shl1 k = 2 ^ k"
proof -
  assume k: "k < 31"
  have "(2::int) ^ k < 2 ^ 31"
    using k by (intro power_strict_increasing) simp_all
  moreover have "- (2 ^ 31) \<le> (2::int) ^ k"
    by (rule order_trans [of _ 0]) simp_all
  ultimately have "signed_take_bit 31 ((2::int) ^ k) = 2 ^ k"
    by (simp only: signed_take_bit_int_eq_self)
  with k show ?thesis
    by (simp add: shl1_def push_bit_eq_mult)
qed

lemma upt_0_4: "[0..<4] = [0, 1, 2, 3::nat]"
  by code_simp

lemma single_target_arity1_general:
  "QuantumGate.qubits g = 1 \<Longrightarrow> name g \<noteq> ''cnot''
     \<Longrightarrow> general_path \<lparr>gate = g, targets = [t], controls = []\<rparr>"
  by (simp add: general_path_def)

lemma arity3_general:
  "QuantumGate.qubits g = 3 \<Longrightarrow> name g \<noteq> ''cnot''
     \<Longrightarrow> general_path \<lparr>gate = g, targets = ts, controls = cs\<rparr>"
  by (simp add: general_path_def)

lemma multi_control_general:
  "2 \<le> length cs \<Longrightarrow> general_path \<lparr>gate = g, targets = ts, controls = cs\<rparr>"
  by (auto simp: general_path_def)

lemma controlled_general:
  "length cs = 1 \<Longrightarrow> name g \<noteq> ''cnot''
     \<Longrightarrow> general_path \<lparr>gate = g, targets = ts, controls = cs\<rparr>"
  by (auto simp: general_path_def)

lemma applySingleQubitGate_pauliX:
  "applySingleQubitGate
     \<lparr>qubits = 1, vector = [Num 1, Num 0, Num 0, Num 0], probabilities = None\<rparr>
     (matrix pauliX) 0
   = Inr \<lparr>qubits = 1, vector = [Num 0, Num 0, Num 1, Num 0], probabilities = None\<rparr>"
  by code_simp

text \<open>
  C1. The claim: an operation with a gate of arity 1, one target and no controls is
  dispatched to the pairwise single-qubit update, so that Pauli-X on the one-qubit state
  \<open>|0>\<close> gives amplitude \<open>(0,0)\<close> at index 0 and \<open>(1,0)\<close> at index 1. The code tests
  \<^verbatim>\<open>targets.length !== gate.qubits\<close> where the claim needs equality, so this operation
  fails the first test and, being neither a two-target nor a CNOT operation, reaches the
  placeholder: the state \<open>|0>\<close> comes back as it was, amplitude \<open>(1,0)\<close> at index 0 and
  \<open>(0,0)\<close> at index 1. (The pairwise update itself, called directly, gives \<open>|1>\<close>:
  lemma \<open>applySingleQubitGate_pauliX\<close>.)
\<close>

theorem pauliX_on_zero_unchanged:
  "createState 1
     = Inr \<lparr>qubits = 1, vector = [Num 1, Num 0, Num 0, Num 0], probabilities = None\<rparr>
   \<and> applyGate
       \<lparr>qubits = 1, vector = [Num 1, Num 0, Num 0, Num 0], probabilities = None\<rparr>
       \<lparr>gate = pauliX, targets = [0], controls = []\<rparr>
     = Inr \<lparr>qubits = 1, vector = [Num 1, Num 0, Num 0, Num 0], probabilities = None\<rparr>"
  by code_simp

text \<open>
  C2. The claim: CNOT with control 0 and target 1 maps \<open>|10>\<close> to \<open>|11>\<close> and \<open>|11>\<close>
  to \<open>|10>\<close>, each pair of amplitudes being swapped once. The loop of \<^verbatim>\<open>applyCNOT\<close>
  runs over every basis index whose control bit is 1, and both members of a pair have
  that bit set, so each pair is swapped twice: every two-qubit state comes back with the
  amplitudes it had. With \<open>a2, a3\<close> the amplitude at index 1 (qubit 0 set) and
  \<open>a6, a7\<close> the amplitude at index 3, nothing moves.
\<close>

theorem applyGate_cnot_two_qubits_unchanged:
  "applyGate
     \<lparr>qubits = 2, vector = [a0, a1, a2, a3, a4, a5, a6, a7], probabilities = None\<rparr>
     \<lparr>gate = cnot, targets = [1], controls = [0]\<rparr>
   = Inr \<lparr>qubits = 2, vector = [a0, a1, a2, a3, a4, a5, a6, a7], probabilities = None\<rparr>"
  by (simp add: applyGate_def cnot_def createGate_def applyCNOT_def shl1_def cnot_step_def
      bit_of_def vget_def vset_def upt_0_4)

text \<open>
  C5. Applying the Hadamard gate to the same qubit twice through \<^verbatim>\<open>applyGate\<close> gives
  back the state it started from, for every state and every target: the amplitude buffer
  is the original one exactly, hence within every tolerance. (A one-target Hadamard
  operation reaches the placeholder, which returns its argument.)
\<close>

theorem hadamard_twice_original:
  "(case applyGate s \<lparr>gate = hadamard, targets = [q], controls = []\<rparr> of
      Inl e \<Rightarrow> Inl e
    | Inr s1 \<Rightarrow> applyGate s1 \<lparr>gate = hadamard, targets = [q], controls = []\<rparr>) = Inr s"
  by (simp add: applyGate_def hadamard_def createGate_def applyGeneralGate_def)

text \<open>
  C8. Every operation that reaches the general-gate fallback of \<^verbatim>\<open>applyGate\<close> returns
  the state it was given, amplitude buffer included. The fallback takes the gates of
  arity 3 such as Toffoli, the operations with two or more controls and the controlled
  gates not named \<open>cnot\<close> (lemmas \<open>arity3_general\<close>, \<open>multi_control_general\<close>,
  \<open>controlled_general\<close>).
\<close>

theorem general_path_returns_state:
  "general_path operation \<Longrightarrow> applyGate s operation = Inr s"
  by (auto simp: general_path_def applyGate_def applyGeneralGate_def Let_def)

theorem general_path_returns_state_witness:
  "general_path \<lparr>gate = toffoli, targets = [2], controls = [0, 1]\<rparr>
   \<and> applyGate
       \<lparr>qubits = 3, vector = replicate 16 (Num 0), probabilities = None\<rparr>
       \<lparr>gate = toffoli, targets = [2], controls = [0, 1]\<rparr>
     = Inr \<lparr>qubits = 3, vector = replicate 16 (Num 0), probabilities = None\<rparr>"
proof -
  have g: "general_path \<lparr>gate = toffoli, targets = [2], controls = [0, 1]\<rparr>"
    by (simp add: general_path_def toffoli_def createGate_def)
  show ?thesis
    using g general_path_returns_state [OF g] by simp
qed

section \<open>Measurement with no retained mass\<close>

lemma length_vset [simp]: "length (vset xs j v) = length xs"
  by (simp add: vset_def)

lemma length_collapse_step [simp]:
  "length (fst (collapse_step v q out i acc)) = length (fst acc)"
  by (simp add: collapse_step_def Let_def)

lemma length_collapse_fold [simp]:
  "length (fst (fold (collapse_step v q out) xs acc)) = length (fst acc)"
  by (induction xs arbitrary: acc) simp_all

lemma fdiv_zero_not_finite: "not_finite (fdiv x (Num 0))"
  by (cases x) (simp_all add: not_finite_def inf_of_sign_def)

lemma divide_by_zero_not_finite: "list_all not_finite (map (\<lambda>x. fdiv x (fsqrt (Num 0))) v)"
  by (induction v) (simp_all add: fdiv_zero_not_finite)

lemma measure_qubit_collapsed:
  assumes "0 \<le> shl1 (qubits s)"
  shows "\<exists>m. measure_qubit s q r
           = Inr (\<lparr>qubits = qubits s, vector = collapsed_vector s q m, probabilities = None\<rparr>, m)"
proof -
  from assms obtain probs where
    "(case probabilities s of None \<Rightarrow> calculateProbabilities s | Some ps \<Rightarrow> Inr ps) = Inr probs"
    by (cases "probabilities s") (simp_all add: calculateProbabilities_def new_array_def Let_def)
  with assms have "measure_qubit s q r
      = Inr (\<lparr>qubits = qubits s,
              vector = collapsed_vector s q (flt (Num r) (prob_one probs (shl1 (qubits s)) q)),
              probabilities = None\<rparr>, flt (Num r) (prob_one probs (shl1 (qubits s)) q))"
    by (simp add: measure_qubit_def collapsed_vector_def new_array_def Let_def)
  then show ?thesis ..
qed

lemma replicate_4: "replicate 4 x = [x, x, x, x]"
  by (simp add: numeral_eq_Suc)

lemma shl1_1: "shl1 1 = 2"
  by (simp add: shl1_def)

lemma shl1_Suc0: "shl1 (Suc 0) = 2"
  using shl1_1 by simp

lemma example_probabilities:
  "calculateProbabilities
     \<lparr>qubits = Suc 0, vector = [Num 0, Num 0, Num (1 / 2), Num 0], probabilities = None\<rparr>
   = Inr [Num 0, Num (1 / 4)]"
  by code_simp

lemma example_prob_one: "prob_one [Num 0, Num (1 / 4)] 2 0 = Num (1 / 4)"
  by code_simp

lemma example_collapse:
  "collapse [Num 0, Num 0, Num (1 / 2), Num 0] 2 0 0 [Num 0, Num 0, Num 0, Num 0]
   = ([Num 0, Num 0, Num 0, Num 0], Num 0)"
  by code_simp

lemma measure_example:
  "retained_mass
     \<lparr>qubits = 1, vector = [Num 0, Num 0, Num (1 / 2), Num 0], probabilities = None\<rparr> 0 False
   = Num 0
   \<and> measure_qubit
       \<lparr>qubits = 1, vector = [Num 0, Num 0, Num (1 / 2), Num 0], probabilities = None\<rparr>
       0 (1 / 2)
     = Inr (\<lparr>qubits = 1, vector = [NaN, NaN, NaN, NaN], probabilities = None\<rparr>, False)"
  by (simp add: measure_qubit_def retained_mass_def shl1_Suc0 example_probabilities example_prob_one
      example_collapse new_array_def inf_of_sign_def replicate_4)

text \<open>
  A state whose only amplitude is so small that its square underflows: \<open>10^-200\<close> at
  index 0. Both probabilities are 0, the outcome is 0, the amplitude is retained with mass
  0, and the division by 0 gives an infinity there and NaN elsewhere.
\<close>

lemma underflow_probabilities:
  "calculateProbabilities
     \<lparr>qubits = Suc 0,
      vector = [Num (1 / 100000000000000000000000000000000000000000000000000000000000000000000000000000000000000000000000000000000000000000000000000000000000000000000000000000000000000000000000000000000000000000000000000000000),
                Num 0, Num 0, Num 0],
      probabilities = None\<rparr>
   = Inr [Num 0, Num 0]"
  by code_simp

lemma underflow_prob_one: "prob_one [Num 0, Num 0] 2 0 = Num 0"
  by code_simp

lemma underflow_collapse:
  "collapse
     [Num (1 / 100000000000000000000000000000000000000000000000000000000000000000000000000000000000000000000000000000000000000000000000000000000000000000000000000000000000000000000000000000000000000000000000000000000),
      Num 0, Num 0, Num 0] 2 0 0 [Num 0, Num 0, Num 0, Num 0]
   = ([Num (1 / 100000000000000000000000000000000000000000000000000000000000000000000000000000000000000000000000000000000000000000000000000000000000000000000000000000000000000000000000000000000000000000000000000000000),
       Num 0, Num 0, Num 0], Num 0)"
  by code_simp

lemma measure_underflow_example:
  "retained_mass
     \<lparr>qubits = 1, vector = [Num (1 / 10 ^ 200), Num 0, Num 0, Num 0], probabilities = None\<rparr>
     0 False = Num 0
   \<and> collapsed_vector
       \<lparr>qubits = 1, vector = [Num (1 / 10 ^ 200), Num 0, Num 0, Num 0], probabilities = None\<rparr>
       0 False = [PosInf, NaN, NaN, NaN]
   \<and> measure_qubit
       \<lparr>qubits = 1, vector = [Num (1 / 10 ^ 200), Num 0, Num 0, Num 0], probabilities = None\<rparr>
       0 (1 / 2)
     = Inr (\<lparr>qubits = 1, vector = [PosInf, NaN, NaN, NaN], probabilities = None\<rparr>, False)"
  by (simp add: measure_qubit_def retained_mass_def collapsed_vector_def shl1_Suc0
      underflow_probabilities underflow_prob_one underflow_collapse new_array_def inf_of_sign_def
      replicate_4)

text \<open>
  C3, the claim as stated: when the drawn outcome has no retained probability mass,
  \<^verbatim>\<open>measure\<close> signals an error instead of returning NaN amplitudes. It fails on the
  one-qubit state with amplitude \<open>1/2\<close> at index 1 and the draw \<open>1/2\<close>: the probability of
  1 is \<open>1/4\<close>, the draw is not below it, the outcome is 0, nothing is retained, and
  \<^verbatim>\<open>measure\<close> returns normally with every entry of the buffer \<open>0/0\<close>.
\<close>

theorem measure_zero_mass_counterexample:
  "retained_mass
     \<lparr>qubits = 1, vector = [Num 0, Num 0, Num (1 / 2), Num 0], probabilities = None\<rparr> 0 False
   = Num 0
   \<and> measure_qubit
       \<lparr>qubits = 1, vector = [Num 0, Num 0, Num (1 / 2), Num 0], probabilities = None\<rparr>
       0 (1 / 2)
     = Inr (\<lparr>qubits = 1, vector = [NaN, NaN, NaN, NaN], probabilities = None\<rparr>, False)"
  by (rule measure_example)

text \<open>
  C3, amended: \<^verbatim>\<open>measure\<close> has no guard and signals nothing. On every state whose
  dimension \<^verbatim>\<open>1 << qubits\<close> is not negative it returns an outcome and the collapsed
  buffer of that outcome; and for either outcome, when its retained mass is zero, the
  buffer has its full length and every entry of it is NaN or an infinity. The reason is
  the last loop alone: dividing by a zero factor leaves no entry of any buffer finite.
\<close>

theorem measure_zero_mass_not_finite:
  assumes "0 \<le> shl1 (qubits s)"
  shows "(\<exists>m. measure_qubit s q r
            = Inr (\<lparr>qubits = qubits s, vector = collapsed_vector s q m, probabilities = None\<rparr>, m))
       \<and> (\<forall>m. retained_mass s q m = Num 0
              \<longrightarrow> length (collapsed_vector s q m) = nat (shl1 (qubits s) * 2)
                \<and> list_all not_finite (collapsed_vector s q m))
       \<and> (\<forall>v. list_all not_finite (map (\<lambda>x. fdiv x (fsqrt (Num 0))) v))"
proof (intro conjI allI impI)
  show "\<exists>m. measure_qubit s q r
      = Inr (\<lparr>qubits = qubits s, vector = collapsed_vector s q m, probabilities = None\<rparr>, m)"
    using assms by (rule measure_qubit_collapsed)
next
  fix m
  show "length (collapsed_vector s q m) = nat (shl1 (qubits s) * 2)"
    by (simp add: collapsed_vector_def collapse_def Let_def)
next
  fix m
  assume "retained_mass s q m = Num 0"
  then show "list_all not_finite (collapsed_vector s q m)"
    using divide_by_zero_not_finite
    by (simp add: collapsed_vector_def retained_mass_def Let_def)
next
  fix v
  show "list_all not_finite (map (\<lambda>x. fdiv x (fsqrt (Num 0))) v)"
    by (rule divide_by_zero_not_finite)
qed

theorem measure_zero_mass_not_finite_witness:
  "0 \<le> shl1 1
   \<and> retained_mass
       \<lparr>qubits = 1, vector = [Num (1 / 10 ^ 200), Num 0, Num 0, Num 0], probabilities = None\<rparr>
       0 False = Num 0
   \<and> measure_qubit
       \<lparr>qubits = 1, vector = [Num (1 / 10 ^ 200), Num 0, Num 0, Num 0], probabilities = None\<rparr>
       0 (1 / 2)
     = Inr (\<lparr>qubits = 1, vector = [PosInf, NaN, NaN, NaN], probabilities = None\<rparr>, False)
   \<and> list_all not_finite [PosInf, NaN, NaN, NaN]"
proof -
  let ?s = "\<lparr>qubits = 1, vector = [Num (1 / 10 ^ 200), Num 0, Num 0, Num 0],
             probabilities = None\<rparr>"
  have d: "0 \<le> shl1 (qubits ?s)"
    by (simp add: shl1_Suc0)
  from measure_zero_mass_not_finite [OF d, of 0 "1 / 2"]
  have "retained_mass ?s 0 False = Num 0 \<longrightarrow> list_all not_finite (collapsed_vector ?s 0 False)"
    by blast
  with measure_underflow_example show ?thesis
    by (simp add: shl1_Suc0)
qed

section \<open>Theorems on multi-shot sampling\<close>

lemma vget_cases: "vget xs j = NaN \<or> vget xs j \<in> set xs"
proof (cases "0 \<le> j \<and> j < int (length xs)")
  case True
  then have "nat j < length xs" by linarith
  with True show ?thesis by (simp add: vget_def)
next
  case False
  then show ?thesis by (auto simp: vget_def)
qed

lemma bsearch_no_hit:
  "\<forall>c \<in> set cum. \<not> flt r c \<Longrightarrow> bsearch r cum low high outcome = outcome"
proof (induction r cum low high outcome rule: bsearch.induct)
  case (1 random cum low high outcome)
  have nf: "\<not> flt random (vget cum ((low + high) div 2))"
    using vget_cases [of cum "(low + high) div 2"] "1.prems"
    by (cases random) auto
  show ?case
  proof (cases "low \<le> high")
    case True
    with nf "1.IH"(2) [OF True refl nf "1.prems"] show ?thesis
      by (subst bsearch.simps) (simp add: Let_def)
  next
    case False
    then show ?thesis by (subst bsearch.simps) simp
  qed
qed

lemma to_binary_0: "to_binary 0 = ''0''"
  by simp

lemma bit_string_0: "bit_string 0 n = replicate (max 1 n) CHR ''0''"
proof -
  have "replicate (n - 1) CHR ''0'' @ ''0'' = replicate (max 1 n) CHR ''0''"
    by (cases n) (simp_all add: replicate_append_same)
  then show ?thesis
    by (simp add: bit_string_def padStart_def)
qed

lemma record_shot_alt:
  "record_shot probs n outcome res =
     (case map_of res (bit_string outcome n) of
        Some _ \<Rightarrow> map (increment_key (bit_string outcome n)) res
      | None \<Rightarrow> res @ [(bit_string outcome n,
           \<lparr>state = bit_string outcome n, probability = vget probs outcome,
             frequency = Some (Num 1)\<rparr>)])"
  by (auto simp: record_shot_def increment_key_def increment_def Let_def split: option.split)

lemma fst_increment_key [simp]: "fst (increment_key key e) = fst e"
  by (cases e) (simp add: increment_key_def)

lemma map_fst_increment [simp]: "map fst (map (increment_key key) res) = map fst res"
  by (induction res) simp_all

lemma increment_counted:
  "frequency r = Some (Num (real c)) \<Longrightarrow> 1 \<le> c
     \<Longrightarrow> frequency (increment r) = Some (Num (real (Suc c)))"
  by (simp add: increment_def or_zero_def add.commute)

lemma count_of_increment:
  "frequency r = Some (Num (real c)) \<Longrightarrow> 1 \<le> c \<Longrightarrow> count_of (increment r) = count_of r + 1"
  by (simp add: increment_counted count_of_def)

lemma counted_increment: "counted res \<Longrightarrow> counted (map (increment_key key) res)"
  unfolding counted_def
proof
  fix e
  assume all: "\<forall>e\<in>set res. \<exists>c::nat. 1 \<le> c \<and> frequency (snd e) = Some (Num (real c))"
    and "e \<in> set (map (increment_key key) res)"
  then obtain e0 where e0: "e0 \<in> set res" and e: "e = increment_key key e0"
    by auto
  from all e0 obtain c :: nat where c: "1 \<le> c" "frequency (snd e0) = Some (Num (real c))"
    by blast
  show "\<exists>c::nat. 1 \<le> c \<and> frequency (snd e) = Some (Num (real c))"
  proof (cases "fst e0 = key")
    case True
    with e have "snd e = increment (snd e0)"
      by (cases e0) (simp add: increment_key_def)
    with c increment_counted [of "snd e0" c] show ?thesis
      by (intro exI [of _ "Suc c"]) simp
  next
    case False
    with e have "snd e = snd e0"
      by (cases e0) (simp add: increment_key_def)
    with c show ?thesis by auto
  qed
qed

lemma increment_key_absent:
  "key \<notin> fst ` set res \<Longrightarrow> map (increment_key key) res = res"
  by (induction res) (auto simp: increment_key_def)

lemma sum_increment_key:
  "distinct (map fst res) \<Longrightarrow> key \<in> fst ` set res \<Longrightarrow> counted res
     \<Longrightarrow> sum_list (map (count_of \<circ> snd) (map (increment_key key) res))
         = sum_list (map (count_of \<circ> snd) res) + 1"
proof (induction res)
  case Nil
  then show ?case by simp
next
  case (Cons e res)
  obtain k r where e: "e = (k, r)" by (cases e)
  from Cons.prems(3) have cr: "counted res"
    and "\<exists>c::nat. 1 \<le> c \<and> frequency r = Some (Num (real c))"
    by (simp_all add: counted_def e)
  then obtain c :: nat where c: "1 \<le> c" "frequency r = Some (Num (real c))" by blast
  show ?case
  proof (cases "k = key")
    case True
    with Cons.prems(1) e have "key \<notin> fst ` set res" by auto
    then have "map (increment_key key) res = res" by (rule increment_key_absent)
    with True e count_of_increment [OF c(2) c(1)] show ?thesis
      by (simp add: increment_key_def)
  next
    case False
    with Cons.prems e have "distinct (map fst res)" "key \<in> fst ` set res" by auto
    from Cons.IH [OF this cr] False e show ?thesis
      by (simp add: increment_key_def)
  qed
qed

lemma record_shot_invariant:
  assumes "distinct (map fst res)" "counted res" "sum_list (map (count_of \<circ> snd) res) = real k"
  shows "distinct (map fst (record_shot probs n outcome res))
    \<and> counted (record_shot probs n outcome res)
    \<and> sum_list (map (count_of \<circ> snd) (record_shot probs n outcome res)) = real (Suc k)"
proof (cases "map_of res (bit_string outcome n)")
  case None
  then have "bit_string outcome n \<notin> fst ` set res"
    by (simp add: map_of_eq_None_iff)
  moreover have "counted (res @ [(bit_string outcome n,
      \<lparr>state = bit_string outcome n, probability = vget probs outcome, frequency = Some (Num 1)\<rparr>)])"
    using assms(2) unfolding counted_def by (auto intro: exI [of _ "1::nat"])
  ultimately show ?thesis
    using assms None by (simp add: record_shot_alt count_of_def)
next
  case (Some a)
  then have "bit_string outcome n \<in> fst ` set res"
    by (metis map_of_eq_None_iff option.distinct(1))
  then have "sum_list (map (count_of \<circ> snd) (map (increment_key (bit_string outcome n)) res))
      = real (Suc k)"
    using sum_increment_key [OF assms(1) _ assms(2), of "bit_string outcome n"] assms(3)
    by simp
  moreover have "distinct (map fst (map (increment_key (bit_string outcome n)) res))"
    using assms(1) by (simp only: map_fst_increment)
  moreover have "counted (map (increment_key (bit_string outcome n)) res)"
    using assms(2) by (rule counted_increment)
  moreover have "record_shot probs n outcome res = map (increment_key (bit_string outcome n)) res"
    using Some by (simp add: record_shot_alt)
  ultimately show ?thesis
    by (simp only:)
qed

lemma shots_invariant:
  "distinct (map fst res) \<Longrightarrow> counted res \<Longrightarrow> sum_list (map (count_of \<circ> snd) res) = real k
     \<Longrightarrow> distinct (map fst (fold (\<lambda>shot res. record_shot probs n (f shot) res) xs res))
       \<and> counted (fold (\<lambda>shot res. record_shot probs n (f shot) res) xs res)
       \<and> sum_list (map (count_of \<circ> snd) (fold (\<lambda>shot res. record_shot probs n (f shot) res) xs res))
           = real (k + length xs)"
proof (induction xs arbitrary: res k)
  case Nil
  then show ?case by simp
next
  case (Cons x xs)
  from record_shot_invariant [OF Cons.prems, of probs n "f x"]
  have "distinct (map fst (record_shot probs n (f x) res))"
    "counted (record_shot probs n (f x) res)"
    "sum_list (map (count_of \<circ> snd) (record_shot probs n (f x) res)) = real (Suc k)"
    by blast+
  from Cons.IH [OF this] show ?case by simp
qed

lemma map_fst_divide: "map fst (map (divide_by shots) res) = map fst res"
  by (induction res) (auto simp: divide_by_def)

lemma frequency_sum_divide:
  "counted res \<Longrightarrow> 0 < shots
     \<Longrightarrow> frequency_sum (map (divide_by shots) res)
         = Num (sum_list (map (count_of \<circ> snd) res) / real shots)"
proof (induction res)
  case Nil
  then show ?case by (simp add: frequency_sum_def)
next
  case (Cons e res)
  obtain k r where e: "e = (k, r)" by (cases e)
  from Cons.prems(1) have cr: "counted res"
    and "\<exists>c::nat. 1 \<le> c \<and> frequency r = Some (Num (real c))"
    by (simp_all add: counted_def e)
  then obtain c :: nat where c: "frequency r = Some (Num (real c))" by blast
  then have cnt: "count_of r = real c"
    by (simp add: count_of_def)
  from Cons.IH [OF cr Cons.prems(2)]
  have "frequency_sum (map (divide_by shots) res)
      = Num (sum_list (map (count_of \<circ> snd) res) / real shots)" .
  moreover have "frequency_sum (map (divide_by shots) (e # res))
      = fadd (fdiv (Num (real c)) (Num (real shots))) (frequency_sum (map (divide_by shots) res))"
    by (simp add: frequency_sum_def divide_by_def e c)
  ultimately show ?case
    using Cons.prems(2) by (simp add: e cnt add_divide_distrib comp_def)
qed

lemma record_shot_key: "map_of (record_shot probs n outcome res) (bit_string outcome n) \<noteq> None"
proof (cases "map_of res (bit_string outcome n)")
  case None
  then show ?thesis by (simp add: record_shot_alt)
next
  case (Some a)
  then have "bit_string outcome n \<in> fst ` set res"
    by (metis map_of_eq_None_iff option.distinct(1))
  then have "bit_string outcome n \<in> fst ` set (map (increment_key (bit_string outcome n)) res)"
    by (metis map_fst_increment set_map)
  with Some show ?thesis
    by (simp add: record_shot_alt map_of_eq_None_iff del: set_map)
qed

text \<open>
  C10. In \<^verbatim>\<open>sampleMeasurements\<close>, a shot whose draw is not below any entry of the cumulative
  array (the test \<^verbatim>\<open>random < cumulativeProbs[mid]\<close> fails at every entry, as it does when
  the draw is greater than or equal to each of them) leaves \<^verbatim>\<open>outcome\<close> at the 0 it
  starts from: the binary search returns basis index 0, whatever the bounds, and the shot
  is recorded under the all-zeros bit-string.
\<close>

theorem draw_not_below_cumulative_records_zero:
  assumes "\<forall>c \<in> set cumulativeProbs. \<not> flt (Num random) c"
  shows "bsearch (Num random) cumulativeProbs 0 high 0 = 0
       \<and> bit_string (bsearch (Num random) cumulativeProbs 0 high 0) n = replicate (max 1 n) CHR ''0''
       \<and> map_of (record_shot probs n (bsearch (Num random) cumulativeProbs 0 high 0) res)
           (replicate (max 1 n) CHR ''0'') \<noteq> None"
proof -
  from assms have b: "bsearch (Num random) cumulativeProbs 0 high 0 = 0"
    by (rule bsearch_no_hit)
  moreover from record_shot_key [of probs n 0 res]
  have "map_of (record_shot probs n 0 res) (replicate (max 1 n) CHR ''0'') \<noteq> None"
    by (simp add: bit_string_0)
  ultimately show ?thesis
    by (simp add: bit_string_0)
qed

lemma cumulative_example:
  "cumulative [Num (1 / 4), Num 0] [Num 0, Num 0] 2 = [Num (1 / 4), Num (1 / 4)]"
  by code_simp

theorem draw_not_below_cumulative_records_zero_witness:
  "\<not> flt (Num (1 / 2)) (Num (1 / 4))
   \<and> cumulative [Num (1 / 4), Num 0] [Num 0, Num 0] 2 = [Num (1 / 4), Num (1 / 4)]
   \<and> bsearch (Num (1 / 2)) [Num (1 / 4), Num (1 / 4)] 0 1 0 = 0
   \<and> bit_string (bsearch (Num (1 / 2)) [Num (1 / 4), Num (1 / 4)] 0 1 0) 1 = ''0''
   \<and> map_of (record_shot [Num (1 / 4), Num 0] 1
         (bsearch (Num (1 / 2)) [Num (1 / 4), Num (1 / 4)] 0 1 0) []) ''0'' \<noteq> None"
proof -
  have h: "\<forall>c \<in> set [Num (1 / 4), Num (1 / 4)]. \<not> flt (Num (1 / 2)) c"
    by simp
  from draw_not_below_cumulative_records_zero [OF h, of 1 1 "[Num (1 / 4), Num 0]" "[]"]
    cumulative_example
  show ?thesis by auto
qed

lemma counted_counts:
  "counted res \<Longrightarrow> \<exists>counts. length counts = length res
      \<and> map (\<lambda>e. frequency (snd e)) res = map (\<lambda>c. Some (Num (real c))) counts
      \<and> sum_list (map (count_of \<circ> snd) res) = real (sum_list counts)"
proof (induction res)
  case Nil
  then show ?case by simp
next
  case (Cons e res)
  from Cons.prems have "counted res"
    and "\<exists>c::nat. 1 \<le> c \<and> frequency (snd e) = Some (Num (real c))"
    by (simp_all add: counted_def)
  then obtain c :: nat and counts where c: "frequency (snd e) = Some (Num (real c))"
    and cs: "length counts = length res"
      "map (\<lambda>e. frequency (snd e)) res = map (\<lambda>c. Some (Num (real c))) counts"
      "sum_list (map (count_of \<circ> snd) res) = real (sum_list counts)"
    using Cons.IH by blast
  from c have "count_of (snd e) = real c"
    by (simp add: count_of_def)
  with c cs show ?case
    by (intro exI [of _ "c # counts"]) (simp add: comp_def)
qed

lemma frequency_divide_by:
  "0 < shots \<Longrightarrow> map (\<lambda>e. frequency (snd e)) res = map (\<lambda>c. Some (Num (real c))) counts
     \<Longrightarrow> map (\<lambda>e. frequency (snd e)) (map (divide_by shots) res)
         = map (\<lambda>c. Some (Num (real c / real shots))) counts"
proof (induction res arbitrary: counts)
  case Nil
  then show ?case by simp
next
  case (Cons e res)
  from Cons.prems(2) obtain c cs where counts: "counts = c # cs"
    and c: "frequency (snd e) = Some (Num (real c))"
    and cs: "map (\<lambda>e. frequency (snd e)) res = map (\<lambda>c. Some (Num (real c))) cs"
    by (cases counts) auto
  from Cons.IH [OF Cons.prems(1) cs] c counts Cons.prems(1) show ?case
    by (cases e) (simp add: divide_by_def)
qed

text \<open>
  C7. For every shot count of at least 1 and every state whose dimension is not negative,
  \<^verbatim>\<open>sampleMeasurements\<close> returns a record whose keys are distinct and whose
  frequencies are occurrence counts divided by \<open>shots\<close>, the counts adding up to
  \<open>shots\<close>; the frequencies sum to 1 within \<open>1e-9\<close> (with exact division the sum is 1).
\<close>

theorem sampleMeasurements_frequencies:
  assumes "1 \<le> shots" and "0 \<le> shl1 (qubits st)"
  shows "\<exists>res counts x. sampleMeasurements st shots rnd = Inr res \<and> distinct (map fst res)
           \<and> map (\<lambda>e. frequency (snd e)) res = map (\<lambda>c. Some (Num (real c / real shots))) counts
           \<and> sum_list counts = shots
           \<and> frequency_sum res = Num x \<and> \<bar>x - 1\<bar> \<le> 1 / 10 ^ 9"
proof -
  let ?d = "shl1 (qubits st)"
  from assms(2) obtain probs where probs: "calculateProbabilities st = Inr probs"
    by (simp add: calculateProbabilities_def new_array_def Let_def)
  let ?cum = "cumulative probs (replicate (nat ?d) (Num 0)) ?d"
  let ?res = "fold (\<lambda>shot res. record_shot probs (qubits st)
       (bsearch (Num (rnd shot)) ?cum 0 (?d - 1) 0) res) [0..<shots] []"
  have sm: "sampleMeasurements st shots rnd = Inr (map (divide_by shots) ?res)"
    using assms(2) probs
    by (simp add: sampleMeasurements_def new_array_def Let_def divide_by_def)
  have "distinct (map fst ([]::results))" "counted []"
    "sum_list (map (count_of \<circ> snd) ([]::results)) = real 0"
    by (simp_all add: counted_def)
  from shots_invariant [OF this, of probs "qubits st" "\<lambda>shot. bsearch (Num (rnd shot)) ?cum 0 (?d - 1) 0" "[0..<shots]"]
  have inv: "distinct (map fst ?res)" "counted ?res"
    "sum_list (map (count_of \<circ> snd) ?res) = real shots"
    by simp_all
  from counted_counts [OF inv(2)] inv(3) obtain counts where
    counts: "map (\<lambda>e. frequency (snd e)) ?res = map (\<lambda>c. Some (Num (real c))) counts"
      "sum_list counts = shots"
    by auto
  from assms(1) have pos: "0 < shots" by simp
  have "map (\<lambda>e. frequency (snd e)) (map (divide_by shots) ?res)
      = map (\<lambda>c. Some (Num (real c / real shots))) counts"
    using pos counts(1) by (rule frequency_divide_by)
  moreover from inv(1) have "distinct (map fst (map (divide_by shots) ?res))"
    by (simp only: map_fst_divide)
  moreover from frequency_sum_divide [OF inv(2), of shots] inv(3) assms(1)
  have "frequency_sum (map (divide_by shots) ?res) = Num 1" by simp
  ultimately show ?thesis using sm counts(2) by (intro exI [of _ "map (divide_by shots) ?res"] exI [of _ counts] exI [of _ 1]) simp
qed

lemma sample_example3:
  "sampleMeasurements
     \<lparr>qubits = Suc 0, vector = [Num (3 / 5), Num 0, Num (4 / 5), Num 0], probabilities = None\<rparr>
     3 (\<lambda>k. if k = 0 then 1 / 4 else if k = 1 then 1 / 2 else 3 / 4)
   = Inr [(''0'', \<lparr>state = ''0'', probability = Num (9 / 25), frequency = Some (Num (1 / 3))\<rparr>),
          (''1'', \<lparr>state = ''1'', probability = Num (16 / 25), frequency = Some (Num (2 / 3))\<rparr>)]"
  by code_simp

theorem sampleMeasurements_frequencies_witness:
  "(1::nat) \<le> 3 \<and> 0 \<le> shl1 1
   \<and> sampleMeasurements
       \<lparr>qubits = 1, vector = [Num (3 / 5), Num 0, Num (4 / 5), Num 0], probabilities = None\<rparr>
       3 (\<lambda>k. if k = 0 then 1 / 4 else if k = 1 then 1 / 2 else 3 / 4)
     = Inr [(''0'', \<lparr>state = ''0'', probability = Num (9 / 25), frequency = Some (Num (1 / 3))\<rparr>),
            (''1'', \<lparr>state = ''1'', probability = Num (16 / 25), frequency = Some (Num (2 / 3))\<rparr>)]
   \<and> (\<exists>counts. [Some (Num (1 / 3)), Some (Num (2 / 3))]
         = map (\<lambda>c. Some (Num (real c / real 3))) counts \<and> sum_list counts = 3)
   \<and> (\<exists>x. frequency_sum
         [(''0'', \<lparr>state = ''0'', probability = Num (9 / 25), frequency = Some (Num (1 / 3))\<rparr>),
          (''1'', \<lparr>state = ''1'', probability = Num (16 / 25), frequency = Some (Num (2 / 3))\<rparr>)]
        = Num x \<and> \<bar>x - 1\<bar> \<le> 1 / 10 ^ 9)"
proof -
  have s: "(1::nat) \<le> 3" by simp
  have d: "0 \<le> shl1 (qubits
      \<lparr>qubits = 1, vector = [Num (3 / 5), Num 0, Num (4 / 5), Num 0], probabilities = None\<rparr>)"
    by (simp add: shl1_Suc0)
  from sampleMeasurements_frequencies [OF s d,
      of "\<lambda>k. if k = 0 then 1 / 4 else if k = 1 then 1 / 2 else 3 / 4"]
  obtain res counts x where r: "sampleMeasurements
       \<lparr>qubits = 1, vector = [Num (3 / 5), Num 0, Num (4 / 5), Num 0], probabilities = None\<rparr>
       3 (\<lambda>k. if k = 0 then 1 / 4 else if k = 1 then 1 / 2 else 3 / 4) = Inr res"
    "map (\<lambda>e. frequency (snd e)) res = map (\<lambda>c. Some (Num (real c / real 3))) counts"
    "sum_list counts = 3"
    "frequency_sum res = Num x" "\<bar>x - 1\<bar> \<le> 1 / 10 ^ 9"
    by blast
  from r(1) sample_example3 have "res =
      [(''0'', \<lparr>state = ''0'', probability = Num (9 / 25), frequency = Some (Num (1 / 3))\<rparr>),
       (''1'', \<lparr>state = ''1'', probability = Num (16 / 25), frequency = Some (Num (2 / 3))\<rparr>)]"
    by simp
  with r sample_example3 show ?thesis
    by (simp add: shl1_Suc0) blast
qed

section \<open>Theorems on the single-shot mode\<close>

lemma calculateProbabilities_RangeError:
  "shl1 (qubits s) < 0 \<Longrightarrow> calculateProbabilities s = Inl RangeError"
  by (simp add: calculateProbabilities_def new_array_def Let_def)

lemma measure_qubit_RangeError:
  "shl1 (qubits s) < 0 \<Longrightarrow> measure_qubit s q r = Inl RangeError"
  by (cases "probabilities s")
    (simp_all add: measure_qubit_def calculateProbabilities_RangeError new_array_def Let_def)

lemma sampleMeasurements_RangeError:
  "shl1 (qubits s) < 0 \<Longrightarrow> sampleMeasurements s shots rnd = Inl RangeError"
  by (simp add: sampleMeasurements_def calculateProbabilities_RangeError)

lemma measure_qubit_total:
  assumes "0 \<le> shl1 (qubits s)"
  shows "\<exists>s' m. measure_qubit s q r = Inr (s', m) \<and> qubits s' = qubits s"
proof -
  from assms obtain probs where
    "(case probabilities s of None \<Rightarrow> calculateProbabilities s | Some ps \<Rightarrow> Inr ps) = Inr probs"
    by (cases "probabilities s") (simp_all add: calculateProbabilities_def new_array_def Let_def)
  with assms show ?thesis
    by (simp add: measure_qubit_def new_array_def Let_def)
qed

lemma createState_Inr:
  "createState n = Inr st \<Longrightarrow> qubits st = n \<and> 0 \<le> shl1 n"
  by (auto simp: createState_def new_array_def Let_def split: if_splits)

lemma applySingleQubitGate_qubits:
  "applySingleQubitGate s m t = Inr s' \<Longrightarrow> qubits s' = qubits s"
  by (auto simp: applySingleQubitGate_def Let_def split: sum.splits)

lemma applyTwoQubitGate_qubits:
  "applyTwoQubitGate s m a b = Inr s' \<Longrightarrow> qubits s' = qubits s"
  by (auto simp: applyTwoQubitGate_def Let_def split: sum.splits)

lemma applyGate_qubits: "applyGate s operation = Inr s' \<Longrightarrow> qubits s' = qubits s"
  by (auto simp: applyGate_def Let_def applyCNOT_def applyGeneralGate_def
      dest: applySingleQubitGate_qubits applyTwoQubitGate_qubits split: if_splits)

lemma apply_operations_qubits:
  "apply_operations s ops = Inr s' \<Longrightarrow> qubits s' = qubits s"
proof (induction ops arbitrary: s)
  case Nil
  then show ?case by simp
next
  case (Cons operation ops)
  then obtain s1 where s1: "applyGate s operation = Inr s1" "apply_operations s1 ops = Inr s'"
    by (auto split: sum.splits)
  from Cons.IH [OF s1(2)] applyGate_qubits [OF s1(1)] show ?case by simp
qed

lemma single_shot_measure_each:
  assumes "0 \<le> shl1 (qubits st)"
  shows "\<exists>st' outs. measure_each rnd k (map qubit ms) st = Inr (st', outs)
           \<and> length outs = length ms
           \<and> single_shot rnd k ms st cl = Inr (st', assemble (map classical ms) outs cl)"
  using assms
proof (induction ms arbitrary: k st cl)
  case Nil
  then show ?case by (simp add: assemble_def)
next
  case (Cons m ms)
  from measure_qubit_total [OF Cons.prems, of "qubit m" "rnd k"]
  obtain s1 b where s1: "measure_qubit st (qubit m) (rnd k) = Inr (s1, b)" "qubits s1 = qubits st"
    by blast
  with Cons.prems have "0 \<le> shl1 (qubits s1)" by simp
  from Cons.IH [OF this, of "Suc k" "array_set cl (classical m) (if b then 1 else 0)"]
  obtain st' outs where r: "measure_each rnd (Suc k) (map qubit ms) s1 = Inr (st', outs)"
    "length outs = length ms"
    "single_shot rnd (Suc k) ms s1 (array_set cl (classical m) (if b then 1 else 0))
       = Inr (st', assemble (map classical ms) outs (array_set cl (classical m) (if b then 1 else 0)))"
    by blast
  show ?case
    using s1 r by (simp add: assemble_def)
qed

text \<open>
  C6. When the state preparation of \<^verbatim>\<open>runCircuit\<close> succeeds, the run with \<open>shots = 1\<close>
  returns; it measures the qubits named in \<^verbatim>\<open>circuit.measurements\<close> one after the other,
  in the order given, each measurement starting from the state the previous one left
  (\<open>measure_each\<close>, with one draw per measurement); the final state is the last collapsed
  state, and the measurement map has exactly one entry, the bit-string assembled from the
  outcomes, with probability 1.0.
\<close>

theorem runCircuit_single_shot:
  assumes "createState (numQubits c) = Inr st0" and "apply_operations st0 (operations c) = Inr st"
  shows "\<exists>st' outs.
           measure_each rnd 0 (map qubit (QuantumCircuit.measurements c)) st = Inr (st', outs)
         \<and> length outs = length (QuantumCircuit.measurements c)
         \<and> runCircuit c 1 rnd = Inr \<lparr>circuitId = id_c c, finalState = st',
             measurements =
               [(join (assemble (map classical (QuantumCircuit.measurements c)) outs
                         (replicate (length (QuantumCircuit.measurements c)) (Some 0))),
                 \<lparr>state = join (assemble (map classical (QuantumCircuit.measurements c)) outs
                         (replicate (length (QuantumCircuit.measurements c)) (Some 0))),
                  probability = Num 1, frequency = Some (Num 1)\<rparr>)]\<rparr>"
proof -
  from createState_Inr [OF assms(1)] apply_operations_qubits [OF assms(2)]
  have "0 \<le> shl1 (qubits st)" by simp
  from single_shot_measure_each [OF this, of rnd 0 "QuantumCircuit.measurements c"
      "replicate (length (QuantumCircuit.measurements c)) (Some 0)"]
  obtain st' outs where
    "measure_each rnd 0 (map qubit (QuantumCircuit.measurements c)) st = Inr (st', outs)"
    "length outs = length (QuantumCircuit.measurements c)"
    "single_shot rnd 0 (QuantumCircuit.measurements c) st
       (replicate (length (QuantumCircuit.measurements c)) (Some 0))
     = Inr (st', assemble (map classical (QuantumCircuit.measurements c)) outs
         (replicate (length (QuantumCircuit.measurements c)) (Some 0)))"
    by blast
  with assms show ?thesis
    by (simp add: runCircuit_def Let_def)
qed

lemma createState_example:
  "createState (Suc 0)
   = Inr \<lparr>qubits = Suc 0, vector = [Num 1, Num 0, Num 0, Num 0], probabilities = None\<rparr>"
  by code_simp

lemma applyGate_example:
  "applyGate
     \<lparr>qubits = Suc 0, vector = [Num 1, Num 0, Num 0, Num 0], probabilities = None\<rparr>
     \<lparr>gate = pauliX, targets = [0], controls = []\<rparr>
   = Inr \<lparr>qubits = Suc 0, vector = [Num 1, Num 0, Num 0, Num 0], probabilities = None\<rparr>"
  by code_simp

lemma zero_probabilities:
  "calculateProbabilities
     \<lparr>qubits = Suc 0, vector = [Num 1, Num 0, Num 0, Num 0], probabilities = None\<rparr>
   = Inr [Num 1, Num 0]"
  by code_simp

lemma zero_prob_one: "prob_one [Num 1, Num 0] 2 0 = Num 0"
  by code_simp

lemma zero_collapse:
  "collapse [Num 1, Num 0, Num 0, Num 0] 2 0 0 [Num 0, Num 0, Num 0, Num 0]
   = ([Num 1, Num 0, Num 0, Num 0], Num 1)"
  by code_simp

lemma measure_zero_state:
  "measure_qubit
     \<lparr>qubits = Suc 0, vector = [Num 1, Num 0, Num 0, Num 0], probabilities = None\<rparr> 0 (1 / 2)
   = Inr (\<lparr>qubits = Suc 0, vector = [Num 1, Num 0, Num 0, Num 0], probabilities = None\<rparr>,
          False)"
  by (simp add: measure_qubit_def shl1_Suc0 zero_probabilities zero_prob_one zero_collapse
      new_array_def replicate_4)

lemma runCircuit_example:
  "runCircuit
     \<lparr>id_c = ''c'', numQubits = 1,
      operations = [\<lparr>gate = pauliX, targets = [0], controls = []\<rparr>],
      measurements = [\<lparr>qubit = 0, classical = 0\<rparr>]\<rparr> 1 (\<lambda>k. 1 / 2)
   = Inr \<lparr>circuitId = ''c'',
          finalState = \<lparr>qubits = 1, vector = [Num 1, Num 0, Num 0, Num 0],
                         probabilities = None\<rparr>,
          measurements = [(''0'', \<lparr>state = ''0'', probability = Num 1,
                                   frequency = Some (Num 1)\<rparr>)]\<rparr>"
  by (simp add: runCircuit_def createState_example applyGate_example measure_zero_state
      array_set_def join_def Let_def)

theorem runCircuit_single_shot_witness:
  "createState 1
     = Inr \<lparr>qubits = 1, vector = [Num 1, Num 0, Num 0, Num 0], probabilities = None\<rparr>
   \<and> apply_operations
       \<lparr>qubits = 1, vector = [Num 1, Num 0, Num 0, Num 0], probabilities = None\<rparr>
       [\<lparr>gate = pauliX, targets = [0], controls = []\<rparr>]
     = Inr \<lparr>qubits = 1, vector = [Num 1, Num 0, Num 0, Num 0], probabilities = None\<rparr>
   \<and> measure_each (\<lambda>k. 1 / 2) 0 [0]
       \<lparr>qubits = 1, vector = [Num 1, Num 0, Num 0, Num 0], probabilities = None\<rparr>
     = Inr (\<lparr>qubits = 1, vector = [Num 1, Num 0, Num 0, Num 0], probabilities = None\<rparr>,
            [False])
   \<and> runCircuit
       \<lparr>id_c = ''c'', numQubits = 1,
        operations = [\<lparr>gate = pauliX, targets = [0], controls = []\<rparr>],
        measurements = [\<lparr>qubit = 0, classical = 0\<rparr>]\<rparr> 1 (\<lambda>k. 1 / 2)
     = Inr \<lparr>circuitId = ''c'',
            finalState = \<lparr>qubits = 1, vector = [Num 1, Num 0, Num 0, Num 0],
                           probabilities = None\<rparr>,
            measurements = [(''0'', \<lparr>state = ''0'', probability = Num 1,
                                     frequency = Some (Num 1)\<rparr>)]\<rparr>"
proof -
  let ?c = "\<lparr>id_c = ''c'', numQubits = 1,
        operations = [\<lparr>gate = pauliX, targets = [0], controls = []\<rparr>],
        measurements = [\<lparr>qubit = 0, classical = 0\<rparr>]\<rparr>"
  let ?s = "\<lparr>qubits = 1, vector = [Num 1, Num 0, Num 0, Num 0], probabilities = None\<rparr>"
  have c: "createState (numQubits ?c) = Inr ?s"
    by (simp add: createState_example)
  have a: "apply_operations ?s (operations ?c) = Inr ?s"
    by (simp add: applyGate_example)
  from runCircuit_single_shot [OF c a, of "\<lambda>k. 1 / 2"] runCircuit_example
  show ?thesis
    by (auto simp: createState_example applyGate_example measure_zero_state)
qed

section \<open>Theorems on the store\<close>

lemma frame_iff: "frame h h' \<longleftrightarrow> (\<forall>a < next_free h. buffers h' a = buffers h a)"
  by (auto simp: frame_def list_all_iff)

lemma keeps_refl [simp]: "keeps n h h"
  by (simp add: keeps_def)

lemma keeps_trans: "keeps n h h' \<Longrightarrow> keeps n h' h'' \<Longrightarrow> keeps n h h''"
  by (simp add: keeps_def)

lemma keeps_write: "n \<le> a \<Longrightarrow> keeps n h (write_buffer h a xs)"
  by (simp add: keeps_def write_buffer_def)

lemma keeps_alloc: "keeps (next_free h) h (snd (alloc h xs))"
  by (simp add: keeps_def alloc_def)

lemma store_loop_keeps:
  assumes "\<And>i h. keeps n h (fst (body i h))"
  shows "keeps n h (fst (store_loop xs body h))"
proof (induction xs arbitrary: h)
  case Nil
  then show ?case by simp
next
  case (Cons i xs)
  obtain h' r where b: "body i h = (h', r)" by (cases "body i h")
  from assms [of h i] b have k: "keeps n h h'" by simp
  show ?case
  proof (cases r)
    case None
    with b k Cons.IH [of h'] show ?thesis
      by (auto intro: keeps_trans)
  next
    case (Some e)
    with b k show ?thesis by simp
  qed
qed

lemma fold_write_keeps:
  "n \<le> a \<Longrightarrow> keeps n h (fold (\<lambda>i h. write_buffer h a (f i h)) xs h)"
proof (induction xs arbitrary: h)
  case Nil
  then show ?case by simp
next
  case (Cons i xs)
  from Cons.IH [OF Cons.prems, of "write_buffer h a (f i h)"] keeps_write [OF Cons.prems, of h "f i h"]
  show ?case by (auto intro: keeps_trans)
qed

lemma step_body_keeps:
  "n \<le> a \<Longrightarrow> keeps n h (fst (case step h of Inl e \<Rightarrow> (h, Some e)
                                   | Inr r \<Rightarrow> (write_buffer h a r, None)))"
  by (cases "step h") (simp_all add: keeps_write)

lemma fst_loop_result:
  "fst (case p of (h2, Some e) \<Rightarrow> (h2, f e) | (h2, None) \<Rightarrow> (h2, g h2)) = fst p"
  by (cases p; cases "snd p") auto

lemma applySingleQubitGate_store_keeps:
  "keeps (next_free h) h (fst (applySingleQubitGate_store h st m t))"
proof -
  let ?h1 = "snd (alloc h (replicate (length (buffers h (ref_vector st))) (Num 0)))"
  let ?body = "\<lambda>i h'. case single_qubit_step (buffers h' (ref_vector st)) m t i
                                (buffers h' (next_free h)) of
                          Inl e \<Rightarrow> (h', Some e)
                        | Inr r \<Rightarrow> (write_buffer h' (next_free h) r, None)"
  have "keeps (next_free h) ?h1 (fst (store_loop [0..<nat (shl1 (ref_qubits st))] ?body ?h1))"
    by (rule store_loop_keeps) (rule step_body_keeps, simp)
  with keeps_alloc have "keeps (next_free h) h
      (fst (store_loop [0..<nat (shl1 (ref_qubits st))] ?body ?h1))"
    by (rule keeps_trans)
  then show ?thesis
    by (simp add: applySingleQubitGate_store_def Let_def alloc_def fst_loop_result)
qed

lemma applyCNOT_store_keeps:
  "keeps (next_free h) h (fst (applyCNOT_store h st c t))"
proof -
  let ?h1 = "snd (alloc h (buffers h (ref_vector st)))"
  have "keeps (next_free h) ?h1
      (fold (\<lambda>i h'. write_buffer h' (next_free h) (cnot_step c t i (buffers h' (next_free h))))
         [0..<nat (shl1 (ref_qubits st))] ?h1)"
    by (rule fold_write_keeps) simp
  with keeps_alloc have "keeps (next_free h) h
      (fold (\<lambda>i h'. write_buffer h' (next_free h) (cnot_step c t i (buffers h' (next_free h))))
         [0..<nat (shl1 (ref_qubits st))] ?h1)"
    by (rule keeps_trans)
  then show ?thesis
    by (simp add: applyCNOT_store_def Let_def alloc_def)
qed

lemma applyTwoQubitGate_store_keeps:
  "keeps (next_free h) h (fst (applyTwoQubitGate_store h st m q1 q2))"
proof (cases "new_array (shl1 (ref_qubits st) * 2)")
  case (Inl e)
  then show ?thesis by (simp add: applyTwoQubitGate_store_def)
next
  case (Inr zeros)
  let ?h1 = "snd (alloc h zeros)"
  let ?body = "\<lambda>i. store_loop [0..<4]
                       (\<lambda>j h'. case two_qubit_inner (buffers h' (ref_vector st)) m q1 q2 i j
                                       (buffers h' (next_free h)) of
                                 Inl e \<Rightarrow> (h', Some e)
                               | Inr r \<Rightarrow> (write_buffer h' (next_free h) r, None))"
  have "keeps (next_free h) ?h1 (fst (store_loop [0..<nat (shl1 (ref_qubits st))] ?body ?h1))"
    by (rule store_loop_keeps, rule store_loop_keeps, rule step_body_keeps) simp
  with keeps_alloc have "keeps (next_free h) h
      (fst (store_loop [0..<nat (shl1 (ref_qubits st))] ?body ?h1))"
    by (rule keeps_trans)
  with Inr show ?thesis
    by (simp add: applyTwoQubitGate_store_def Let_def alloc_def fst_loop_result)
qed

lemma applyGate_store_keeps:
  "keeps (next_free h) h (fst (applyGate_store h st operation))"
  by (simp add: applyGate_store_def Let_def applySingleQubitGate_store_keeps
      applyTwoQubitGate_store_keeps applyCNOT_store_keeps applyGeneralGate_store_def)

lemma applyCNOT_store_fresh:
  "\<exists>h' st'. applyCNOT_store h st c t = (h', Inr st') \<and> ref_vector st' = next_free h"
  by (simp add: applyCNOT_store_def Let_def alloc_def)

lemma simulates_step:
  "src \<noteq> r \<Longrightarrow> simulates src r v
     (\<lambda>i h. case f (buffers h src) i (buffers h r) of
               Inl e \<Rightarrow> (h, Some e)
             | Inr x \<Rightarrow> (write_buffer h r x, None)) (f v)"
  by (auto simp: simulates_def write_buffer_def split: sum.split)

lemma store_loop_simulates:
  assumes "simulates src r v body step" and "buffers h src = v"
  shows "case store_loop xs body h of
      (h', None) \<Rightarrow> for_loop xs step (buffers h r) = Inr (buffers h' r) \<and> buffers h' src = v
    | (h', Some e) \<Rightarrow> for_loop xs step (buffers h r) = Inl e"
  using assms(2)
proof (induction xs arbitrary: h)
  case Nil
  then show ?case by simp
next
  case (Cons j js)
  obtain h1 r1 where b: "body j h = (h1, r1)" by (cases "body j h")
  from assms(1) [unfolded simulates_def, rule_format, OF Cons.prems, of j]
  have "case body j h of
         (h', None) \<Rightarrow> step j (buffers h r) = Inr (buffers h' r) \<and> buffers h' src = v
       | (h', Some e) \<Rightarrow> step j (buffers h r) = Inl e" .
  with b
  have s: "case r1 of None \<Rightarrow> step j (buffers h r) = Inr (buffers h1 r) \<and> buffers h1 src = v
             | Some e \<Rightarrow> step j (buffers h r) = Inl e"
    by (cases r1) simp_all
  show ?case
  proof (cases r1)
    case None
    with s have s1: "step j (buffers h r) = Inr (buffers h1 r)" "buffers h1 src = v"
      by simp_all
    from Cons.IH [OF s1(2)] b None s1 show ?thesis
      by (simp split: prod.splits option.splits)
  next
    case (Some e)
    with s b show ?thesis by simp
  qed
qed

lemma simulates_nested:
  assumes "\<And>i. simulates src r v (body i) (step i)"
  shows "simulates src r v (\<lambda>i. store_loop xs (body i)) (\<lambda>i. for_loop xs (step i))"
  unfolding simulates_def
proof (intro allI impI)
  fix i :: nat and h :: heap
  assume "buffers h src = v"
  from store_loop_simulates [OF assms [of i] this]
  show "case store_loop xs (body i) h of
      (h', None) \<Rightarrow> for_loop xs (step i) (buffers h r) = Inr (buffers h' r) \<and> buffers h' src = v
    | (h', Some e) \<Rightarrow> for_loop xs (step i) (buffers h r) = Inl e" .
qed

lemma fold_write_buffer:
  "buffers (fold (\<lambda>i h. write_buffer h r (f i (buffers h r))) xs h) r = fold f xs (buffers h r)"
  by (induction xs arbitrary: h) (simp_all add: write_buffer_def)

lemma applySingleQubitGate_store_refines:
  assumes "ref_vector st < next_free h"
  shows "case applySingleQubitGate_store h st m t of
      (h', Inl e) \<Rightarrow> applySingleQubitGate (load h st) m t = Inl e
    | (h', Inr st') \<Rightarrow> applySingleQubitGate (load h st) m t = Inr (load h' st')"
proof -
  let ?src = "ref_vector st" and ?r = "next_free h"
  let ?v = "buffers h ?src"
  let ?h1 = "snd (alloc h (replicate (length ?v) (Num 0)))"
  let ?body = "\<lambda>i h'. case single_qubit_step (buffers h' ?src) m t i (buffers h' ?r) of
                          Inl e \<Rightarrow> (h', Some e)
                        | Inr x \<Rightarrow> (write_buffer h' ?r x, None)"
  from assms have ne: "?src \<noteq> ?r" by simp
  then have h1: "buffers ?h1 ?src = ?v" "buffers ?h1 ?r = replicate (length ?v) (Num 0)"
    by (simp_all add: alloc_def)
  from store_loop_simulates [OF simulates_step [OF ne, of ?v "\<lambda>v. single_qubit_step v m t"] h1(1),
      of "[0..<nat (shl1 (ref_qubits st))]"]
  show ?thesis
    by (simp add: applySingleQubitGate_store_def applySingleQubitGate_def Let_def alloc_def load_def
        split: prod.splits option.splits)
qed

lemma applyTwoQubitGate_store_refines:
  assumes "ref_vector st < next_free h"
  shows "case applyTwoQubitGate_store h st m q1 q2 of
      (h', Inl e) \<Rightarrow> applyTwoQubitGate (load h st) m q1 q2 = Inl e
    | (h', Inr st') \<Rightarrow> applyTwoQubitGate (load h st) m q1 q2 = Inr (load h' st')"
proof (cases "new_array (shl1 (ref_qubits st) * 2)")
  case (Inl e)
  then show ?thesis
    by (simp add: applyTwoQubitGate_store_def applyTwoQubitGate_def load_def)
next
  case (Inr zeros)
  let ?src = "ref_vector st" and ?r = "next_free h"
  let ?v = "buffers h ?src"
  let ?h1 = "snd (alloc h zeros)"
  from assms have ne: "?src \<noteq> ?r" by simp
  then have h1: "buffers ?h1 ?src = ?v" "buffers ?h1 ?r = zeros"
    by (simp_all add: alloc_def)
  have "simulates ?src ?r ?v
      (\<lambda>i. store_loop [0..<4]
         (\<lambda>j h'. case two_qubit_inner (buffers h' ?src) m q1 q2 i j (buffers h' ?r) of
                    Inl e \<Rightarrow> (h', Some e)
                  | Inr x \<Rightarrow> (write_buffer h' ?r x, None)))
      (\<lambda>i. for_loop [0..<4] (two_qubit_inner ?v m q1 q2 i))"
    by (rule simulates_nested) (rule simulates_step [OF ne, of ?v "\<lambda>v. two_qubit_inner v m q1 q2 _"])
  from store_loop_simulates [OF this h1(1), of "[0..<nat (shl1 (ref_qubits st))]"] Inr
  show ?thesis
    by (simp add: applyTwoQubitGate_store_def applyTwoQubitGate_def Let_def alloc_def load_def
        split: prod.splits option.splits)
qed

lemma applyCNOT_store_refines:
  "case applyCNOT_store h st c t of
      (h', Inl e) \<Rightarrow> False
    | (h', Inr st') \<Rightarrow> applyCNOT (load h st) c t = load h' st'"
  by (simp add: applyCNOT_store_def applyCNOT_def Let_def alloc_def load_def fold_write_buffer)

lemma applyGate_store_refines:
  assumes "ref_vector st < next_free h"
  shows "case applyGate_store h st operation of
      (h', Inl e) \<Rightarrow> applyGate (load h st) operation = Inl e
    | (h', Inr st') \<Rightarrow> applyGate (load h st) operation = Inr (load h' st')"
proof -
  let ?g = "gate operation" and ?ts = "targets operation" and ?cs = "controls operation"
  consider (single) "length ?ts \<noteq> QuantumGate.qubits ?g \<and> QuantumGate.qubits ?g = 1 \<and> length ?cs = 0"
    | (two) "\<not> (length ?ts \<noteq> QuantumGate.qubits ?g \<and> QuantumGate.qubits ?g = 1 \<and> length ?cs = 0)"
        "QuantumGate.qubits ?g = 2 \<and> length ?ts = 2 \<and> length ?cs = 0"
    | (cnot) "\<not> (length ?ts \<noteq> QuantumGate.qubits ?g \<and> QuantumGate.qubits ?g = 1 \<and> length ?cs = 0)"
        "\<not> (QuantumGate.qubits ?g = 2 \<and> length ?ts = 2 \<and> length ?cs = 0)"
        "name ?g = ''cnot'' \<and> length ?ts = 1 \<and> length ?cs = 1"
    | (general) "\<not> (length ?ts \<noteq> QuantumGate.qubits ?g \<and> QuantumGate.qubits ?g = 1 \<and> length ?cs = 0)"
        "\<not> (QuantumGate.qubits ?g = 2 \<and> length ?ts = 2 \<and> length ?cs = 0)"
        "\<not> (name ?g = ''cnot'' \<and> length ?ts = 1 \<and> length ?cs = 1)"
    by blast
  then show ?thesis
  proof cases
    case single
    then have eq: "applyGate_store h st operation
        = applySingleQubitGate_store h st (matrix ?g) (index0 ?ts)"
      "applyGate (load h st) operation = applySingleQubitGate (load h st) (matrix ?g) (index0 ?ts)"
      by (simp_all add: applyGate_store_def applyGate_def Let_def)
    show ?thesis
      unfolding eq by (rule applySingleQubitGate_store_refines [OF assms])
  next
    case two
    then have eq: "applyGate_store h st operation
        = applyTwoQubitGate_store h st (matrix ?g) (?ts ! 0) (?ts ! 1)"
      "applyGate (load h st) operation
        = applyTwoQubitGate (load h st) (matrix ?g) (?ts ! 0) (?ts ! 1)"
      by (simp_all add: applyGate_store_def applyGate_def Let_def)
    show ?thesis
      unfolding eq by (rule applyTwoQubitGate_store_refines [OF assms])
  next
    case cnot
    then have eq: "applyGate_store h st operation = applyCNOT_store h st (?cs ! 0) (?ts ! 0)"
      "applyGate (load h st) operation = Inr (applyCNOT (load h st) (?cs ! 0) (?ts ! 0))"
      by (auto simp: applyGate_store_def applyGate_def Let_def)
    from applyCNOT_store_refines [of h st "?cs ! 0" "?ts ! 0"]
    show ?thesis
      unfolding eq by (auto split: prod.splits sum.splits)
  next
    case general
    then have eq: "applyGate_store h st operation = (h, Inr st)"
      "applyGate (load h st) operation = Inr (load h st)"
      by (auto simp: applyGate_store_def applyGate_def Let_def applyGeneralGate_store_def
          applyGeneralGate_def)
    show ?thesis
      unfolding eq by simp
  qed
qed

text \<open>
  C9. \<^verbatim>\<open>applyGate\<close> leaves the caller's amplitude buffer as it was, on every dispatch
  path and also when it throws: every buffer allocated before the call holds after the
  call what it held before. The CNOT specialization returns a buffer other than the
  caller's: it swaps in the copy it allocated.
\<close>

theorem applyGate_store_frame:
  assumes "ref_vector st < next_free h"
  shows "buffers (fst (applyGate_store h st operation)) (ref_vector st) = buffers h (ref_vector st)
       \<and> frame h (fst (applyGate_store h st operation))
       \<and> (\<exists>h' st'. applyCNOT_store h st c t = (h', Inr st') \<and> ref_vector st' \<noteq> ref_vector st)"
proof -
  from applyGate_store_keeps [of h st operation]
  have k: "\<forall>a < next_free h. buffers (fst (applyGate_store h st operation)) a = buffers h a"
    by (simp add: keeps_def)
  with assms have "buffers (fst (applyGate_store h st operation)) (ref_vector st)
      = buffers h (ref_vector st)"
    by blast
  moreover from k have "frame h (fst (applyGate_store h st operation))"
    by (simp add: frame_iff)
  moreover from applyCNOT_store_fresh [of h st c t] assms
  have "\<exists>h' st'. applyCNOT_store h st c t = (h', Inr st') \<and> ref_vector st' \<noteq> ref_vector st"
    by auto
  ultimately show ?thesis by blast
qed

lemma store_example:
  "buffers (fst (applyGate_store
      \<lparr>buffers = (\<lambda>a. []) (0 := [Num 0, Num 0, Num 1, Num 0, Num 0, Num 0, Num 0, Num 0]),
       next_free = 1\<rparr>
      \<lparr>ref_qubits = 2, ref_vector = 0, ref_probabilities = None\<rparr>
      \<lparr>gate = cnot, targets = [1], controls = [0]\<rparr>)) 0
   = [Num 0, Num 0, Num 1, Num 0, Num 0, Num 0, Num 0, Num 0]"
  by code_simp

theorem applyGate_store_frame_witness:
  "(0::nat) < 1
   \<and> buffers (fst (applyGate_store
        \<lparr>buffers = (\<lambda>a. []) (0 := [Num 0, Num 0, Num 1, Num 0, Num 0, Num 0, Num 0, Num 0]),
         next_free = 1\<rparr>
        \<lparr>ref_qubits = 2, ref_vector = 0, ref_probabilities = None\<rparr>
        \<lparr>gate = cnot, targets = [1], controls = [0]\<rparr>)) 0
     = [Num 0, Num 0, Num 1, Num 0, Num 0, Num 0, Num 0, Num 0]
   \<and> frame
        \<lparr>buffers = (\<lambda>a. []) (0 := [Num 0, Num 0, Num 1, Num 0, Num 0, Num 0, Num 0, Num 0]),
         next_free = 1\<rparr>
        (fst (applyGate_store
          \<lparr>buffers = (\<lambda>a. []) (0 := [Num 0, Num 0, Num 1, Num 0, Num 0, Num 0, Num 0, Num 0]),
           next_free = 1\<rparr>
          \<lparr>ref_qubits = 2, ref_vector = 0, ref_probabilities = None\<rparr>
          \<lparr>gate = cnot, targets = [1], controls = [0]\<rparr>))"
proof -
  let ?h = "\<lparr>buffers = (\<lambda>a. []) (0 := [Num 0, Num 0, Num 1, Num 0, Num 0, Num 0, Num 0, Num 0]),
         next_free = 1\<rparr>"
  let ?st = "\<lparr>ref_qubits = 2, ref_vector = 0, ref_probabilities = None\<rparr>"
  have a: "ref_vector ?st < next_free ?h" by simp
  from applyGate_store_frame [OF a, of "\<lparr>gate = cnot, targets = [1], controls = [0]\<rparr>" 0 1]
  show ?thesis by simp
qed

end
